theory Spec2Isabelle
  imports Complex_Main "HOL-Library.AList"
begin

section \<open>Documents and the store\<close>

text \<open>
  The engine works on four collections of an external document store.  A collection is a
  list and a document's \<open>_id\<close> is its position in the list: the engine inserts documents and
  updates them in place, and never deletes one.  Amounts of money are JavaScript numbers in
  the source; they are real numbers here, so the arithmetic below is exact where the
  source rounds to the nearest double.  A contract date is the number of milliseconds
  since the epoch, as \<open>Date\<close> subtraction and comparison see it.

  Of the document mapper the following is modelled.  A query with a session sees the
  writes of its transaction, a query without one sees the committed store.  Each query
  returns a fresh document; \<open>save\<close> on an existing document writes the paths that were set
  on it, \<open>save\<close> on a new one inserts it with the defaults of its schema.  The validators of
  a schema (required, \<open>min\<close>, \<open>max\<close>) are applied to new documents; stored documents are
  taken to satisfy them.  Saving a player runs the pre-save hook of the Player schema.
  The \<open>_cdcMeta\<close> annotations the services attach before a save are left out.

  An operation that opens its own transaction is a function from the store to the pair of
  what the caller gets, the error thrown (\<open>Inl\<close>) or the value returned (\<open>Inr\<close>), and the
  store afterwards: the committed writes, or, after \<open>abortTransaction\<close>, the store the
  operation started from.  A function with the suffix \<open>_in\<close> is the body of an operation
  inside a transaction: it throws (\<open>Inl\<close>) or returns with the store as written so far.
\<close>

datatype contract_status = Active | Expired | Terminated

datatype clause_value = Text string | DateValue int | Amount real

text \<open>
  \<open>age\<close> is the virtual of the Player schema (full years from \<open>dateOfBirth\<close> to the current
  date); it is kept as a field, with the value it has while the operation at hand runs.
\<close>

record player =
  age :: int
  currentClub :: "nat option"
  marketValue :: real

record club =
  budget :: real
  currentSquad :: "nat list"

record contract =
  playerId :: nat
  clubId :: nat
  startDate :: int
  endDate :: int
  salary :: real
  clauses :: "(string \<times> clause_value) list"
  status :: contract_status

datatype transfer_status = Pending | Completed | Cancelled | Failed

datatype transfer_type = Permanent | Loan | FreeTransfer | Swap

datatype transfer_window = Summer | Winter | OutsideWindow

text \<open>
  A transfer date, by what the engine asks of it: its time value and the month index
  \<open>getMonth()\<close> reports for it (0 is January).
\<close>

record jsdate =
  getTime :: int
  getMonth :: nat

record sellOn =
  percentage :: real
  active :: bool

record transfer =
  t_playerId :: nat
  fromClub :: nat
  toClub :: nat
  transferFee :: real
  date :: jsdate
  transferType :: transfer_type
  t_status :: transfer_status
  transferWindow :: transfer_window
  loanDuration :: "real option"
  contractDetails :: "nat option"
  sellOnClause :: sellOn
  additionalTerms :: "(string \<times> clause_value) list"

record store =
  players :: "player list"
  clubs :: "club list"
  contracts :: "contract list"
  transfers :: "transfer list"

text \<open>
  What an operation can throw: an \<open>ErrorResponse\<close> with its message (without the
  interpolated id) and HTTP status code, a schema validator rejecting a value on \<open>save\<close>,
  or the error a pre-save hook passes to \<open>next\<close>.
\<close>

datatype error = ErrorResponse string nat | ValidatorError string | HookError string

definition statusCode :: "error \<Rightarrow> nat option" where
  "statusCode e = (case e of ErrorResponse msg code \<Rightarrow> Some code | _ \<Rightarrow> None)"

definition findById :: "'a list \<Rightarrow> nat \<Rightarrow> 'a option" where
  "findById xs i = (if i < length xs then Some (xs ! i) else None)"

text \<open>\<open>Math.round\<close>: to the nearest integer, halves upwards.\<close>

definition Math_round :: "real \<Rightarrow> real" where
  "Math_round x = of_int \<lfloor>x + 1 / 2\<rfloor>"

text \<open>
  Saving a player runs the validating pre-save hook of the Player schema, which computes
  the age as the virtual does and rejects an age below 16 or above 50.
\<close>

definition Player_save :: "store \<Rightarrow> nat \<Rightarrow> player \<Rightarrow> error + store" where
  "Player_save s pid p =
     (if age p < 16 then Inl (HookError ''Player must be at least 16 years old'')
      else if age p > 50 then Inl (HookError ''Player age exceeds 50 years'')
      else Inr (s\<lparr>players := (players s)[pid := p]\<rparr>))"


section \<open>ContractService\<close>

text \<open>
  The second listing of the class is the one modelled: its \<open>validateContract\<close> is complete,
  where \<open>validateContractData\<close> of the first listing breaks off.  Of the first listing,
  \<open>processExpiredContracts\<close> is modelled as well.

  \<open>contractData\<close> is the plain object a caller passes: every field may be missing
  (\<open>None\<close>).  A date in it is the time value of the \<open>Date\<close> or date string passed.
\<close>

record contractData =
  cd_playerId :: "nat option"
  cd_clubId :: "nat option"
  cd_startDate :: "int option"
  cd_endDate :: "int option"
  cd_salary :: "real option"
  cd_clauses :: "(string \<times> clause_value) list option"
  cd_status :: "contract_status option"

definition orElse :: "'a option \<Rightarrow> 'a option \<Rightarrow> 'a option" where
  "orElse later earlier = (case later of Some v \<Rightarrow> Some v | None \<Rightarrow> earlier)"

text \<open>Object spread \<open>{...a, ...b}\<close>: a field of \<open>b\<close> wins over the same field of \<open>a\<close>.\<close>

definition spread :: "contractData \<Rightarrow> contractData \<Rightarrow> contractData" where
  "spread a b =
     \<lparr>cd_playerId = orElse (cd_playerId b) (cd_playerId a),
      cd_clubId = orElse (cd_clubId b) (cd_clubId a),
      cd_startDate = orElse (cd_startDate b) (cd_startDate a),
      cd_endDate = orElse (cd_endDate b) (cd_endDate a),
      cd_salary = orElse (cd_salary b) (cd_salary a),
      cd_clauses = orElse (cd_clauses b) (cd_clauses a),
      cd_status = orElse (cd_status b) (cd_status a)\<rparr>"

definition calculateClubSalaryExpenses :: "store \<Rightarrow> nat \<Rightarrow> real" where
  "calculateClubSalaryExpenses s cid =
     sum_list (map salary (filter (\<lambda>c. clubId c = cid \<and> status c = Active) (contracts s)))"

definition minDuration :: int where
  "minDuration = 30 * 24 * 60 * 60 * 1000"

definition maxDuration :: int where
  "maxDuration = 5 * 365 * 24 * 60 * 60 * 1000"

text \<open>
  \<open>validateContract\<close>.  All its reads go through the session, except the salary sum:
  \<open>calculateClubSalaryExpenses\<close> queries without the session and so sees the committed
  store \<open>committed\<close>, not the writes the transaction has made so far (\<open>s\<close>).
\<close>

definition validateContract :: "store \<Rightarrow> store \<Rightarrow> contractData \<Rightarrow> error + unit" where
  "validateContract committed s d =
     (if cd_playerId d = None \<or> cd_clubId d = None \<or> cd_startDate d = None \<or>
         cd_endDate d = None \<or> cd_salary d = None
      then Inl (ErrorResponse ''Missing required contract fields'' 400)
      else
        let pid = the (cd_playerId d); cid = the (cd_clubId d);
            contractStart = the (cd_startDate d); contractEnd = the (cd_endDate d);
            sal = the (cd_salary d)
        in case findById (players s) pid of
             None \<Rightarrow> Inl (ErrorResponse ''Player not found with id'' 404)
           | Some player \<Rightarrow>
          (case findById (clubs s) cid of
             None \<Rightarrow> Inl (ErrorResponse ''Club not found with id'' 404)
           | Some club \<Rightarrow>
               if contractEnd \<le> contractStart
               then Inl (ErrorResponse ''Contract end date must be after start date'' 400)
               else if contractEnd - contractStart < minDuration
               then Inl (ErrorResponse ''Contract duration must be at least 30 days'' 400)
               else if contractEnd - contractStart > maxDuration
               then Inl (ErrorResponse ''Contract duration cannot exceed 5 years'' 400)
               else if find (\<lambda>c. playerId c = pid \<and> status c = Active \<and> clubId c \<noteq> cid)
                         (contracts s) \<noteq> None
               then Inl (ErrorResponse
                          ''Player already has an active contract with another club'' 400)
               else if budget club < calculateClubSalaryExpenses committed cid + sal
               then Inl (ErrorResponse ''Contract salary exceeds club budget'' 400)
               else Inr ()))"

text \<open>
  \<open>new Contract({...contractData, status: 'Active'})\<close> followed by \<open>save\<close>: the status written
  after the spread replaces one the caller supplied, \<open>clauses\<close> defaults to the empty map,
  the required paths must be present and the salary must not be negative (\<open>min: 0\<close>).  The
  new document goes to the end of the collection.
\<close>

definition Contract_create :: "store \<Rightarrow> contractData \<Rightarrow> error + store \<times> nat" where
  "Contract_create s d =
     (if cd_playerId d = None then Inl (ValidatorError ''playerId'')
      else if cd_clubId d = None then Inl (ValidatorError ''clubId'')
      else if cd_startDate d = None then Inl (ValidatorError ''startDate'')
      else if cd_endDate d = None then Inl (ValidatorError ''endDate'')
      else if cd_salary d = None then Inl (ValidatorError ''salary'')
      else if the (cd_salary d) < 0 then Inl (ValidatorError ''salary'')
      else Inr (s\<lparr>contracts := contracts s @
                   [\<lparr>playerId = the (cd_playerId d), clubId = the (cd_clubId d),
                     startDate = the (cd_startDate d), endDate = the (cd_endDate d),
                     salary = the (cd_salary d),
                     clauses = (case cd_clauses d of None \<Rightarrow> [] | Some cl \<Rightarrow> cl),
                     status = Active\<rparr>]\<rparr>,
                length (contracts s)))"

text \<open>
  The body of \<open>createContract\<close> between the start of the transaction and its commit.
  Throwing is \<open>Inl\<close>; the writes made before a throw are dropped by the caller's abort.
\<close>

definition setCurrentClub :: "store \<Rightarrow> nat \<Rightarrow> nat \<Rightarrow> error + store" where
  "setCurrentClub s pid cid =
     (case findById (players s) pid of
        None \<Rightarrow> Inr s
      | Some p \<Rightarrow> Player_save s pid (p\<lparr>currentClub := Some cid\<rparr>))"

definition addToSquad :: "store \<Rightarrow> nat \<Rightarrow> nat \<Rightarrow> store" where
  "addToSquad s cid pid =
     (case findById (clubs s) cid of
        None \<Rightarrow> s
      | Some c \<Rightarrow>
          if pid \<in> set (currentSquad c) then s
          else s\<lparr>clubs := (clubs s)[cid := c\<lparr>currentSquad := currentSquad c @ [pid]\<rparr>]\<rparr>)"

definition createContract_in :: "store \<Rightarrow> store \<Rightarrow> contractData \<Rightarrow> error + store \<times> nat" where
  "createContract_in committed s d =
     (case validateContract committed s d of
        Inl e \<Rightarrow> Inl e
      | Inr u \<Rightarrow>
         (case Contract_create s d of
            Inl e \<Rightarrow> Inl e
          | Inr (s1, newId) \<Rightarrow>
             (case setCurrentClub s1 (the (cd_playerId d)) (the (cd_clubId d)) of
                Inl e \<Rightarrow> Inl e
              | Inr s2 \<Rightarrow> Inr (addToSquad s2 (the (cd_clubId d)) (the (cd_playerId d)), newId))))"

text \<open>
  \<open>createContract\<close> called without a session: it opens its own transaction, commits on
  success and aborts on a throw.  The result is what the caller gets (the error thrown or
  the id of the contract returned) and the store afterwards.
\<close>

definition createContract :: "store \<Rightarrow> contractData \<Rightarrow> (error + nat) \<times> store" where
  "createContract s d =
     (case createContract_in s s d of
        Inl e \<Rightarrow> (Inl e, s)
      | Inr (s', newId) \<Rightarrow> (Inr newId, s'))"

record terminationData =
  reason :: "string option"
  compensationFee :: "real option"

text \<open>
  \<open>terminateContract\<close>; \<open>now\<close> is \<open>new Date()\<close>.  \<open>reason || 'Transfer'\<close> takes the default
  for a missing and for an empty reason; a missing or zero fee is not recorded.
\<close>

definition terminateContract_in :: "int \<Rightarrow> store \<Rightarrow> nat \<Rightarrow> terminationData \<Rightarrow> error + store" where
  "terminateContract_in now s contractId td =
     (case findById (contracts s) contractId of
        None \<Rightarrow> Inl (ErrorResponse ''Contract not found with id'' 404)
      | Some c \<Rightarrow>
          if status c \<noteq> Active
          then Inl (ErrorResponse ''Cannot terminate contract with status'' 400)
          else
            let r = (case reason td of None \<Rightarrow> ''Transfer''
                     | Some x \<Rightarrow> if x = [] then ''Transfer'' else x);
                cl1 = AList.update ''terminationReason'' (Text r) (clauses c);
                cl2 = AList.update ''terminationDate'' (DateValue now) cl1;
                cl3 = (case compensationFee td of
                         None \<Rightarrow> cl2
                       | Some f \<Rightarrow> if f = 0 then cl2
                                  else AList.update ''terminationFee'' (Amount f) cl2)
            in Inr (s\<lparr>contracts :=
                       (contracts s)[contractId := c\<lparr>status := Terminated, clauses := cl3\<rparr>]\<rparr>))"

definition terminateContract :: "int \<Rightarrow> store \<Rightarrow> nat \<Rightarrow> terminationData \<Rightarrow> (error + nat) \<times> store" where
  "terminateContract now s contractId td =
     (case terminateContract_in now s contractId td of
        Inl e \<Rightarrow> (Inl e, s)
      | Inr s' \<Rightarrow> (Inr contractId, s'))"

definition msPerYear :: real where
  "msPerYear = 365 * 24 * 60 * 60 * 1000"

definition updatePlayerValueOnRenewal :: "store \<Rightarrow> nat \<Rightarrow> contract \<Rightarrow> error + store" where
  "updatePlayerValueOnRenewal s pid newContract =
     (case findById (players s) pid of
        None \<Rightarrow> Inl (ErrorResponse ''Player not found with id'' 404)
      | Some p \<Rightarrow>
          let durationYears = real_of_int (endDate newContract - startDate newContract) / msPerYear;
              base = 1 + (0.05 + durationYears * 0.02);
              valueIncreaseFactor =
                (if age p < 25 then base + 0.1 else if age p > 30 then base - 0.1 else base);
              newMarketValue = Math_round (marketValue p * valueIncreaseFactor)
          in Player_save s pid (p\<lparr>marketValue := newMarketValue\<rparr>))"

text \<open>
  \<open>renewContract\<close>: one transaction around the termination of the old contract, the
  creation of the new one and the revaluation.  The data of the new contract start from
  the old contract's player and club and \<open>now\<close> as start date, with \<open>renewalData\<close> spread
  over them.
\<close>

definition renewContract_in :: "int \<Rightarrow> store \<Rightarrow> nat \<Rightarrow> contractData \<Rightarrow> error + store \<times> nat" where
  "renewContract_in now s contractId renewalData =
     (case findById (contracts s) contractId of
        None \<Rightarrow> Inl (ErrorResponse ''Contract not found with id'' 404)
      | Some oldContract \<Rightarrow>
          if status oldContract \<noteq> Active
          then Inl (ErrorResponse ''Cannot renew contract with status'' 400)
          else
           (case terminateContract_in now s contractId
                   \<lparr>reason = Some ''Renewal'', compensationFee = None\<rparr> of
              Inl e \<Rightarrow> Inl e
            | Inr s1 \<Rightarrow>
               (case createContract_in s s1
                       (spread \<lparr>cd_playerId = Some (playerId oldContract),
                                cd_clubId = Some (clubId oldContract),
                                cd_startDate = Some now, cd_endDate = None, cd_salary = None,
                                cd_clauses = None, cd_status = None\<rparr> renewalData) of
                  Inl e \<Rightarrow> Inl e
                | Inr (s2, newId) \<Rightarrow>
                   (case updatePlayerValueOnRenewal s2 (playerId oldContract)
                           (contracts s2 ! newId) of
                      Inl e \<Rightarrow> Inl e
                    | Inr s3 \<Rightarrow> Inr (s3, newId)))))"

definition renewContract :: "int \<Rightarrow> store \<Rightarrow> nat \<Rightarrow> contractData \<Rightarrow> (error + nat) \<times> store" where
  "renewContract now s contractId renewalData =
     (case renewContract_in now s contractId renewalData of
        Inl e \<Rightarrow> (Inl e, s)
      | Inr (s', newId) \<Rightarrow> (Inr newId, s'))"

text \<open>
  \<open>processExpiredContracts\<close>; \<open>today\<close> is \<open>new Date()\<close>.  The query returns the Active
  contracts that ended before \<open>today\<close>, each with its id.  Saving a document whose status
  was set writes that one path.
\<close>

definition expiredContracts :: "int \<Rightarrow> store \<Rightarrow> (nat \<times> contract) list" where
  "expiredContracts today s =
     filter (\<lambda>(i, c). status c = Active \<and> endDate c < today) (enumerate 0 (contracts s))"

definition saveExpired :: "store \<Rightarrow> nat \<Rightarrow> store" where
  "saveExpired s i = s\<lparr>contracts := (contracts s)[i := (contracts s ! i)\<lparr>status := Expired\<rparr>]\<rparr>"

text \<open>
  First listing: one transaction per contract.  The body of the loop sets the contract to
  Expired and clears the player's club when it is the club of the contract; a throw (the
  player's save can) aborts this contract's transaction only, and the loop goes on.
\<close>

definition expireContract :: "store \<Rightarrow> nat \<times> contract \<Rightarrow> error + store" where
  "expireContract s x =
     (let s1 = saveExpired s (fst x) in
      case findById (players s1) (playerId (snd x)) of
        None \<Rightarrow> Inr s1
      | Some p \<Rightarrow>
          if currentClub p = Some (clubId (snd x))
          then Player_save s1 (playerId (snd x)) (p\<lparr>currentClub := None\<rparr>)
          else Inr s1)"

fun sweepEach :: "(nat \<times> contract) list \<Rightarrow> store \<Rightarrow> nat \<Rightarrow> nat \<times> store" where
  "sweepEach [] s updatedCount = (updatedCount, s)"
| "sweepEach (x # xs) s updatedCount =
     (case expireContract s x of
        Inl e \<Rightarrow> sweepEach xs s updatedCount
      | Inr s' \<Rightarrow> sweepEach xs s' (updatedCount + 1))"

definition processExpiredContracts_each :: "int \<Rightarrow> store \<Rightarrow> nat \<times> store" where
  "processExpiredContracts_each today s = sweepEach (expiredContracts today s) s 0"

text \<open>
  Second listing: one transaction around the whole loop, which only sets the statuses.
  Nothing in the loop can throw on a stored contract, so the commit is always reached.
\<close>

fun sweepAll :: "(nat \<times> contract) list \<Rightarrow> store \<Rightarrow> nat \<Rightarrow> nat \<times> store" where
  "sweepAll [] s updatedCount = (updatedCount, s)"
| "sweepAll (x # xs) s updatedCount = sweepAll xs (saveExpired s (fst x)) (updatedCount + 1)"

definition processExpiredContracts :: "int \<Rightarrow> store \<Rightarrow> nat \<times> store" where
  "processExpiredContracts today s = sweepAll (expiredContracts today s) s 0"


section \<open>TransferService\<close>

text \<open>
  The source holds two listings of the class, both cut off before their last helpers.  The
  first one is modelled (\<open>initiateTransfer\<close>, \<open>completeTransfer\<close>, \<open>updatePlayerValue\<close>,
  \<open>calculateTransferBudgetImpact\<close>, \<open>validateTransferWindow\<close>), with \<open>validateTransfer\<close> and
  the validations it calls taken from the second listing, the only place where they
  appear.  Of the second listing, \<open>initiateTransfer\<close>, \<open>updatePlayerValue\<close> and
  \<open>calculateTransferBudgetImpact\<close> are modelled too, with the suffix \<open>_2\<close>.

  \<open>transferData\<close> is the plain object a caller passes: every field may be missing.  Its
  \<open>date\<close> may be left out (\<open>undefined\<close>), be \<open>null\<close>, or be a date.  \<open>new Date(date)\<close> is an
  invalid date for \<open>undefined\<close>, the epoch for \<open>null\<close> (1 January 1970 at 0:00 UTC, with month
  0 on a host whose clock is on UTC) and the date itself for a date; \<open>date || new Date()\<close>
  is the date when there is one and \<open>now\<close> otherwise.
\<close>

datatype date_arg = DateUndefined | DateNull | DateOf jsdate

definition epoch :: jsdate where
  "epoch = \<lparr>getTime = 0, getMonth = 0\<rparr>"

definition new_Date :: "date_arg \<Rightarrow> jsdate option" where
  "new_Date d =
     (case d of DateUndefined \<Rightarrow> None | DateNull \<Rightarrow> Some epoch | DateOf t \<Rightarrow> Some t)"

definition dateOr :: "date_arg \<Rightarrow> jsdate \<Rightarrow> jsdate" where
  "dateOr d now = (case d of DateUndefined \<Rightarrow> now | DateNull \<Rightarrow> now | DateOf t \<Rightarrow> t)"

record transferData =
  td_playerId :: "nat option"
  td_fromClub :: "nat option"
  td_toClub :: "nat option"
  td_transferFee :: "real option"
  td_date :: date_arg
  td_transferType :: "transfer_type option"
  td_status :: "transfer_status option"
  td_transferWindow :: "transfer_window option"
  td_loanDuration :: "real option"
  td_contractDetails :: "nat option"
  td_sellOnClause :: "sellOn option"

text \<open>
  \<open>validateTransferWindow\<close>: June to August (months 5 to 7) or January (month 0), for the
  month of \<open>new Date(date)\<close>.  For an invalid date \<open>getMonth()\<close> is \<open>NaN\<close> and the comparisons
  are all false.
\<close>

definition validateTransferWindow :: "date_arg \<Rightarrow> bool" where
  "validateTransferWindow d =
     (case new_Date d of
        None \<Rightarrow> False
      | Some t \<Rightarrow> (5 \<le> getMonth t \<and> getMonth t \<le> 7) \<or> getMonth t = 0)"

text \<open>
  The three validations query without the session and read the committed store.  A
  missing fee makes \<open>toClub.budget < transferFee\<close> false.
\<close>

definition validateClubBudgets ::
    "store \<Rightarrow> nat option \<Rightarrow> nat option \<Rightarrow> real option \<Rightarrow> error + unit" where
  "validateClubBudgets committed fromClubId toClubId fee =
     (case (case toClubId of None \<Rightarrow> None | Some c \<Rightarrow> findById (clubs committed) c) of
        None \<Rightarrow> Inl (ErrorResponse ''Buying club not found with ID'' 404)
      | Some c \<Rightarrow>
          if (case fee of None \<Rightarrow> False | Some f \<Rightarrow> budget c < f)
          then Inl (ErrorResponse
                     ''Buying club does not have sufficient budget for this transfer'' 400)
          else Inr ())"

definition validateContractStatus :: "store \<Rightarrow> nat \<Rightarrow> error + unit" where
  "validateContractStatus committed pid =
     (if find (\<lambda>c. playerId c = pid \<and> status c = Active) (contracts committed) = None
      then Inl (ErrorResponse ''Player does not have an active contract'' 400)
      else Inr ())"

definition validateSquadRegistration :: "store \<Rightarrow> nat option \<Rightarrow> error + unit" where
  "validateSquadRegistration committed clubId' =
     (case (case clubId' of None \<Rightarrow> None | Some c \<Rightarrow> findById (clubs committed) c) of
        None \<Rightarrow> Inl (ErrorResponse ''Club not found with ID'' 404)
      | Some c \<Rightarrow>
          if length (currentSquad c) \<ge> 25
          then Inl (ErrorResponse ''Club has reached maximum squad size'' 400)
          else Inr ())"

definition validateTransfer :: "store \<Rightarrow> store \<Rightarrow> transferData \<Rightarrow> error + unit" where
  "validateTransfer committed s td =
     (case (case td_playerId td of None \<Rightarrow> None | Some p \<Rightarrow> findById (players s) p) of
        None \<Rightarrow> Inl (ErrorResponse ''Player not found with ID'' 404)
      | Some player \<Rightarrow>
          if \<not> validateTransferWindow (td_date td)
          then Inl (ErrorResponse ''Transfer date is outside valid transfer windows'' 400)
          else
           (case validateClubBudgets committed (td_fromClub td) (td_toClub td)
                   (td_transferFee td) of
              Inl e \<Rightarrow> Inl e
            | Inr u \<Rightarrow>
               (case validateContractStatus committed (the (td_playerId td)) of
                  Inl e \<Rightarrow> Inl e
                | Inr u \<Rightarrow> validateSquadRegistration committed (td_toClub td))))"

text \<open>
  \<open>new Transfer(data)\<close> followed by \<open>save\<close>, by the Transfer schema: the defaults for the
  missing paths (status \<open>Completed\<close>, type \<open>Permanent\<close>, date \<open>now\<close>, an inactive sell-on
  clause of 0 percent, no additional terms), and the validators (required paths, a fee and
  a sell-on percentage within their bounds, a loan duration of at least 1 for a loan).  A
  default fills a path that is \<open>undefined\<close>, not one that is \<open>null\<close>: a \<open>null\<close> date fails the
  \<open>required\<close> validator.
\<close>

definition Transfer_new :: "jsdate \<Rightarrow> transferData \<Rightarrow> error + transfer" where
  "Transfer_new now td =
     (if td_playerId td = None then Inl (ValidatorError ''playerId'')
      else if td_fromClub td = None then Inl (ValidatorError ''fromClub'')
      else if td_toClub td = None then Inl (ValidatorError ''toClub'')
      else if td_transferFee td = None then Inl (ValidatorError ''transferFee'')
      else if the (td_transferFee td) < 0 then Inl (ValidatorError ''transferFee'')
      else if td_date td = DateNull then Inl (ValidatorError ''date'')
      else if td_transferWindow td = None then Inl (ValidatorError ''transferWindow'')
      else if td_transferType td = Some Loan \<and>
              (case td_loanDuration td of None \<Rightarrow> True | Some m \<Rightarrow> m < 1)
      then Inl (ValidatorError ''loanDuration'')
      else if (case td_loanDuration td of None \<Rightarrow> False | Some m \<Rightarrow> m < 1)
      then Inl (ValidatorError ''loanDuration'')
      else if (case td_sellOnClause td of
                 None \<Rightarrow> False
               | Some c \<Rightarrow> percentage c < 0 \<or> 100 < percentage c)
      then Inl (ValidatorError ''sellOnClause.percentage'')
      else Inr \<lparr>t_playerId = the (td_playerId td), fromClub = the (td_fromClub td),
                toClub = the (td_toClub td), transferFee = the (td_transferFee td),
                date = dateOr (td_date td) now,
                transferType = (case td_transferType td of None \<Rightarrow> Permanent | Some t \<Rightarrow> t),
                t_status = (case td_status td of None \<Rightarrow> Completed | Some st \<Rightarrow> st),
                transferWindow = the (td_transferWindow td),
                loanDuration = td_loanDuration td,
                contractDetails = td_contractDetails td,
                sellOnClause = (case td_sellOnClause td of
                                  None \<Rightarrow> \<lparr>percentage = 0, active = False\<rparr>
                                | Some c \<Rightarrow> c),
                additionalTerms = []\<rparr>)"

definition Transfer_insert :: "store \<Rightarrow> transfer \<Rightarrow> store \<times> nat" where
  "Transfer_insert s t = (s\<lparr>transfers := transfers s @ [t]\<rparr>, length (transfers s))"

text \<open>
  Modelled from the spec: \<open>determineTransferWindow\<close>, of which the source has the first
  words of the comment only.  Section 3 gives a transfer the window Summer, Winter or
  Outside, and section 4.4 the months: Summer for the mid-year months, Winter for the
  early-year month, the ones \<open>validateTransferWindow\<close> accepts.
\<close>

definition determineTransferWindow :: "jsdate \<Rightarrow> transfer_window" where
  "determineTransferWindow d =
     (if 5 \<le> getMonth d \<and> getMonth d \<le> 7 then Summer
      else if getMonth d = 0 then Winter
      else OutsideWindow)"

text \<open>
  Modelled from the spec: the Budget Ledger (\<open>reserveFunds\<close>, \<open>reserveClubBudgets\<close> and
  \<open>updateClubBudgets\<close> are called by the source but their bodies are not part of it).
  Section 4.2: \<open>reserve(clubId, amount)\<close> fails with InsufficientFunds if the amount exceeds
  the club's current budget and otherwise debits the amount; \<open>settle(fromClubId, toClubId,
  amount)\<close> credits the amount to the selling club and finalizes the debit already reserved
  on the buying club, without charging it again.
\<close>

definition reserveFunds :: "store \<Rightarrow> nat \<Rightarrow> real \<Rightarrow> error + store" where
  "reserveFunds s clubId' amount =
     (case findById (clubs s) clubId' of
        None \<Rightarrow> Inl (ErrorResponse ''Club not found'' 404)
      | Some c \<Rightarrow>
          if budget c < amount then Inl (ErrorResponse ''Insufficient funds'' 400)
          else Inr (s\<lparr>clubs := (clubs s)[clubId' := c\<lparr>budget := budget c - amount\<rparr>]\<rparr>))"

definition reserveClubBudgets :: "store \<Rightarrow> nat \<Rightarrow> nat \<Rightarrow> real \<Rightarrow> error + store" where
  "reserveClubBudgets s fromClubId toClubId amount = reserveFunds s toClubId amount"

definition updateClubBudgets :: "store \<Rightarrow> nat \<Rightarrow> nat \<Rightarrow> real \<Rightarrow> error + store" where
  "updateClubBudgets s fromClubId toClubId amount =
     (case findById (clubs s) fromClubId of
        None \<Rightarrow> Inl (ErrorResponse ''Club not found'' 404)
      | Some c \<Rightarrow> Inr (s\<lparr>clubs := (clubs s)[fromClubId := c\<lparr>budget := budget c + amount\<rparr>]\<rparr>))"

text \<open>
  \<open>initiateTransfer\<close>, first listing.  The status written after the spread replaces the one
  in \<open>transferData\<close>; so do the date and the window.  \<open>now\<close> is \<open>new Date()\<close>.
\<close>

definition initiateTransfer_in :: "jsdate \<Rightarrow> store \<Rightarrow> transferData \<Rightarrow> error + store \<times> nat" where
  "initiateTransfer_in now s td =
     (case validateTransfer s s td of
        Inl e \<Rightarrow> Inl e
      | Inr u \<Rightarrow>
         (case Transfer_new now
                 (td\<lparr>td_status := Some Pending,
                     td_date := DateOf (dateOr (td_date td) now),
                     td_transferWindow :=
                       Some (determineTransferWindow (dateOr (td_date td) now))\<rparr>) of
            Inl e \<Rightarrow> Inl e
          | Inr t \<Rightarrow>
             (case reserveFunds (fst (Transfer_insert s t)) (toClub t) (transferFee t) of
                Inl e \<Rightarrow> Inl e
              | Inr s2 \<Rightarrow> Inr (s2, snd (Transfer_insert s t)))))"

definition initiateTransfer :: "jsdate \<Rightarrow> store \<Rightarrow> transferData \<Rightarrow> (error + nat) \<times> store" where
  "initiateTransfer now s td =
     (case initiateTransfer_in now s td of
        Inl e \<Rightarrow> (Inl e, s)
      | Inr (s', tid) \<Rightarrow> (Inr tid, s'))"

text \<open>
  \<open>initiateTransfer\<close>, second listing: the document is the spread of \<open>transferData\<close> with the
  status replaced, and the reservation goes through \<open>reserveClubBudgets\<close>.  The budget
  impact this listing computes first is not used afterwards.
\<close>

definition initiateTransfer_in_2 :: "jsdate \<Rightarrow> store \<Rightarrow> transferData \<Rightarrow> error + store \<times> nat" where
  "initiateTransfer_in_2 now s td =
     (case validateTransfer s s td of
        Inl e \<Rightarrow> Inl e
      | Inr u \<Rightarrow>
         (case Transfer_new now (td\<lparr>td_status := Some Pending\<rparr>) of
            Inl e \<Rightarrow> Inl e
          | Inr t \<Rightarrow>
             (case reserveClubBudgets (fst (Transfer_insert s t))
                     (the (td_fromClub td)) (the (td_toClub td)) (the (td_transferFee td)) of
                Inl e \<Rightarrow> Inl e
              | Inr s2 \<Rightarrow> Inr (s2, snd (Transfer_insert s t)))))"

definition initiateTransfer_2 :: "jsdate \<Rightarrow> store \<Rightarrow> transferData \<Rightarrow> (error + nat) \<times> store" where
  "initiateTransfer_2 now s td =
     (case initiateTransfer_in_2 now s td of
        Inl e \<Rightarrow> (Inl e, s)
      | Inr (s', tid) \<Rightarrow> (Inr tid, s'))"

text \<open>
  \<open>updatePlayerValue\<close>, first listing: it loads the player, sets the new market value on
  the loaded document and returns the document; it does not save ("save is handled by
  calling function").  The age multiplier is the local variable of the source.
\<close>

definition ageMultiplier :: "int \<Rightarrow> real" where
  "ageMultiplier a = (if a < 23 then 1.2 else if a > 30 then 0.8 else 1.0)"

definition updatePlayerValue :: "store \<Rightarrow> nat \<Rightarrow> real \<Rightarrow> error + player" where
  "updatePlayerValue s pid fee =
     (case findById (players s) pid of
        None \<Rightarrow> Inl (ErrorResponse ''Player not found with id'' 404)
      | Some p \<Rightarrow>
          let baseValue = Math_round (fee * 0.9)
          in Inr (p\<lparr>marketValue := Math_round (baseValue * ageMultiplier (age p))\<rparr>))"

text \<open>\<open>updatePlayerValue\<close>, second listing: it sets the value and saves the document.\<close>

definition updatePlayerValue_2 :: "store \<Rightarrow> nat \<Rightarrow> real \<Rightarrow> error + store" where
  "updatePlayerValue_2 s pid fee =
     (case findById (players s) pid of
        None \<Rightarrow> Inl (ErrorResponse ''Player not found with ID'' 404)
      | Some p \<Rightarrow> Player_save s pid (p\<lparr>marketValue := Math_round (fee * 0.9)\<rparr>))"

text \<open>
  \<open>calculateTransferBudgetImpact\<close>, first listing: the pair (\<open>fromClubImpact\<close>,
  \<open>toClubImpact\<close>).  A missing type takes the \<open>default\<close> branch of the switch.
\<close>

definition calculateTransferBudgetImpact ::
    "real \<Rightarrow> transfer_type option \<Rightarrow> sellOn option \<Rightarrow> real \<times> real" where
  "calculateTransferBudgetImpact fee ttype clause =
     (let impact = (case ttype of
                      Some Permanent \<Rightarrow> (fee, - fee)
                    | Some Loan \<Rightarrow> (fee, - fee)
                    | Some FreeTransfer \<Rightarrow> (0, 0)
                    | Some Swap \<Rightarrow> (fee, - fee)
                    | None \<Rightarrow> (fee, - fee))
      in case clause of
           None \<Rightarrow> impact
         | Some c \<Rightarrow>
             if active c \<and> percentage c > 0
             then (fst impact - fee * (percentage c / 100), snd impact)
             else impact)"

definition calculateTransferBudgetImpact_2 :: "real \<Rightarrow> transfer_type option \<Rightarrow> real \<times> real" where
  "calculateTransferBudgetImpact_2 fee ttype =
     (case ttype of
        Some Permanent \<Rightarrow> (fee, - fee)
      | Some Loan \<Rightarrow> (fee * 0.3, - fee * 0.3)
      | Some FreeTransfer \<Rightarrow> (0, 0)
      | Some Swap \<Rightarrow> (fee, - fee)
      | None \<Rightarrow> (fee, - fee))"

text \<open>
  Modelled from the spec: \<open>terminateOldContract\<close> and \<open>createNewContract\<close>, called by
  \<open>completeTransfer\<close> but not part of the source.  Section 2 makes the Transfer Lifecycle
  Manager depend on the Contract Lifecycle Manager, and section 4.4 has \<open>complete\<close> terminate
  the Active contract with the origin club with the transfer as reason and create a new
  contract with the destination club: they are the contract manager's \<open>terminate\<close> and
  \<open>create\<close>, run inside the transfer's transaction.
\<close>

definition terminateOldContract :: "int \<Rightarrow> store \<Rightarrow> nat \<Rightarrow> error + store" where
  "terminateOldContract now s contractId =
     terminateContract_in now s contractId \<lparr>reason = Some ''Transfer'', compensationFee = None\<rparr>"

definition createNewContract :: "store \<Rightarrow> store \<Rightarrow> contractData \<Rightarrow> error + store \<times> nat" where
  "createNewContract committed s d = createContract_in committed s d"

text \<open>
  \<open>completeTransfer\<close>, first listing; \<open>now\<close> is \<open>new Date()\<close>.  The steps of the transaction,
  in the order of the source.  \<open>player\<close>, \<open>fromClub\<close> and \<open>toClub\<close> are documents loaded at the
  start; a later \<open>save\<close> of one of them writes the paths that were modified on it.
\<close>

definition terminateActiveWithOrigin :: "int \<Rightarrow> store \<Rightarrow> nat \<Rightarrow> nat \<Rightarrow> error + store" where
  "terminateActiveWithOrigin now s pid fromId =
     (case find (\<lambda>(i, c). playerId c = pid \<and> clubId c = fromId \<and> status c = Active)
             (enumerate 0 (contracts s)) of
        None \<Rightarrow> Inr s
      | Some (i, c) \<Rightarrow> terminateOldContract now s i)"

definition createWithDestination ::
    "int \<Rightarrow> store \<Rightarrow> store \<Rightarrow> nat \<Rightarrow> nat \<Rightarrow> contractData option \<Rightarrow> error + store \<times> nat option" where
  "createWithDestination now committed s pid toId contractData =
     (case contractData of
        None \<Rightarrow> Inr (s, None)
      | Some cd \<Rightarrow>
         (case createNewContract committed s
                 (spread \<lparr>cd_playerId = Some pid, cd_clubId = Some toId,
                          cd_startDate = Some now, cd_endDate = None, cd_salary = None,
                          cd_clauses = None, cd_status = None\<rparr> cd) of
            Inl e \<Rightarrow> Inl e
          | Inr (s', newId) \<Rightarrow> Inr (s', Some newId)))"

text \<open>
  The player step: \<open>currentClub\<close> is set on the \<open>player\<close> document, \<open>updatePlayerValue\<close> is
  awaited and what it returns is not used, and \<open>player\<close> is saved, which writes its
  \<open>currentClub\<close>.
\<close>

definition movePlayer :: "store \<Rightarrow> nat \<Rightarrow> nat \<Rightarrow> real \<Rightarrow> error + store" where
  "movePlayer s pid toId fee =
     (case updatePlayerValue s pid fee of
        Inl e \<Rightarrow> Inl e
      | Inr returned \<Rightarrow> Player_save s pid ((players s ! pid)\<lparr>currentClub := Some toId\<rparr>))"

definition saveSquads :: "store \<Rightarrow> store \<Rightarrow> nat \<Rightarrow> nat \<Rightarrow> nat \<Rightarrow> store" where
  "saveSquads loaded s pid fromId toId =
     (let fromSquad = currentSquad (clubs loaded ! fromId);
          filtered = (if fromSquad \<noteq> [] then filter (\<lambda>i. i \<noteq> pid) fromSquad else fromSquad);
          s1 = s\<lparr>clubs := (clubs s)[fromId := (clubs s ! fromId)\<lparr>currentSquad := filtered\<rparr>]\<rparr>
      in if pid \<in> set (currentSquad (clubs loaded ! toId)) then s1
         else s1\<lparr>clubs := (clubs s1)[toId := (clubs s1 ! toId)
                     \<lparr>currentSquad := currentSquad (clubs s1 ! toId) @ [pid]\<rparr>]\<rparr>)"

definition completeTransfer_in ::
    "int \<Rightarrow> store \<Rightarrow> nat \<Rightarrow> contractData option \<Rightarrow> error + store" where
  "completeTransfer_in now s transferId contractData =
     (case findById (transfers s) transferId of
        None \<Rightarrow> Inl (ErrorResponse ''Transfer not found with id'' 404)
      | Some t \<Rightarrow>
          if t_status t \<noteq> Pending
          then Inl (ErrorResponse ''Cannot complete transfer with status'' 400)
          else if findById (players s) (t_playerId t) = None \<or>
                  findById (clubs s) (fromClub t) = None \<or>
                  findById (clubs s) (toClub t) = None
          then Inl (ErrorResponse ''Player or clubs not found'' 404)
          else
           (case terminateActiveWithOrigin now s (t_playerId t) (fromClub t) of
              Inl e \<Rightarrow> Inl e
            | Inr s1 \<Rightarrow>
               (case createWithDestination now s s1 (t_playerId t) (toClub t) contractData of
                  Inl e \<Rightarrow> Inl e
                | Inr (s2, newId) \<Rightarrow>
                   (case movePlayer s2 (t_playerId t) (toClub t) (transferFee t) of
                      Inl e \<Rightarrow> Inl e
                    | Inr s3 \<Rightarrow>
                       (case updateClubBudgets s3 (fromClub t) (toClub t) (transferFee t) of
                          Inl e \<Rightarrow> Inl e
                        | Inr s4 \<Rightarrow>
                            Inr (saveSquads s
                                  (s4\<lparr>transfers := (transfers s4)[transferId :=
                                        t\<lparr>t_status := Completed,
                                          contractDetails :=
                                            (case newId of None \<Rightarrow> contractDetails t
                                             | Some n \<Rightarrow> Some n)\<rparr>]\<rparr>)
                                  (t_playerId t) (fromClub t) (toClub t)))))))"

definition completeTransfer ::
    "int \<Rightarrow> store \<Rightarrow> nat \<Rightarrow> contractData option \<Rightarrow> (error + nat) \<times> store" where
  "completeTransfer now s transferId contractData =
     (case completeTransfer_in now s transferId contractData of
        Inl e \<Rightarrow> (Inl e, s)
      | Inr s' \<Rightarrow> (Inr transferId, s'))"


section \<open>Committed operations\<close>

text \<open>
  The operations of the engine that write contracts, as values, and the store each one
  leaves: the store after the commit, or the unchanged store after an abort.
\<close>

datatype engine_op =
    CreateContract contractData
  | TerminateContract int nat terminationData
  | RenewContract int nat contractData
  | CompleteTransfer int nat "contractData option"
  | SweepExpiredContracts int
  | SweepExpiredContractsEach int

fun commit :: "store \<Rightarrow> engine_op \<Rightarrow> store" where
  "commit s (CreateContract d) = snd (createContract s d)"
| "commit s (TerminateContract now cid td) = snd (terminateContract now s cid td)"
| "commit s (RenewContract now cid rd) = snd (renewContract now s cid rd)"
| "commit s (CompleteTransfer now tid cd) = snd (completeTransfer now s tid cd)"
| "commit s (SweepExpiredContracts today) = snd (processExpiredContracts today s)"
| "commit s (SweepExpiredContractsEach today) = snd (processExpiredContracts_each today s)"

definition activeContracts :: "store \<Rightarrow> nat \<Rightarrow> contract list" where
  "activeContracts s P = filter (\<lambda>c. playerId c = P \<and> status c = Active) (contracts s)"

section \<open>Change Capture Bus (class \<open>CDC\<close>)\<close>

text \<open>
  A change-stream event as the bus sees it.  The fields the feed supplies are the operation
  type, the key of the affected document, the feed's own timestamp (\<open>clusterTime\<close>) and the
  post-image, which the bus never inspects and which is kept opaque here.  The three
  \<open>_cdc\<close> fields are the ones the bus itself writes; they are absent (\<open>None\<close>, \<open>False\<close>) on
  an event that comes straight from the feed.
\<close>

record change =
  operationType :: string
  documentKey :: nat
  clusterTime :: int
  fullDocument :: string
  cdcTimestamp :: "int option"
  cdcModelName :: "string option"
  cdcManuallyTriggered :: bool

text \<open>
  The bus: the fields of the constructor, and the events handed to \<open>emit\<close> so far, oldest
  first, each with the name it was emitted under.
\<close>

record cdc =
  isEnabled :: bool
  changeLog :: "change list"
  maxChangeLogSize :: nat
  isInitialized :: bool
  published :: "(string \<times> change) list"

definition CDC_constructor :: "bool \<Rightarrow> cdc" where
  "CDC_constructor enabled =
     \<lparr>isEnabled = enabled, changeLog = [], maxChangeLogSize = 1000,
      isInitialized = False, published = []\<rparr>"

text \<open>\<open>logChange\<close>: push, then shift once when the log has grown past its maximum.\<close>

definition logChange :: "cdc \<Rightarrow> change \<Rightarrow> cdc" where
  "logChange b c =
     (let pushed = changeLog b @ [c]
      in b\<lparr>changeLog := (if length pushed > maxChangeLogSize b then tl pushed else pushed)\<rparr>)"

definition emit :: "cdc \<Rightarrow> string \<Rightarrow> change \<Rightarrow> cdc" where
  "emit b name c = b\<lparr>published := published b @ [(name, c)]\<rparr>"

text \<open>
  \<open>handleChange\<close>.  \<open>now\<close> is the value of \<open>new Date()\<close> at the call.  The spread puts the
  two stamps after the fields of the incoming event, so they replace stamps it may carry.
\<close>

definition stamp :: "string \<Rightarrow> int \<Rightarrow> change \<Rightarrow> change" where
  "stamp modelName now c = c\<lparr>cdcTimestamp := Some now, cdcModelName := Some modelName\<rparr>"

definition handleChange :: "string \<Rightarrow> change \<Rightarrow> int \<Rightarrow> cdc \<Rightarrow> cdc" where
  "handleChange modelName c now b =
     (let changeWithTimestamp = stamp modelName now c;
          b1 = logChange b changeWithTimestamp;
          b2 = emit b1 (''change:'' @ modelName) changeWithTimestamp;
          b3 = emit b2 ''change'' changeWithTimestamp
      in if operationType c = ''insert'' then emit b3 (''insert:'' @ modelName) changeWithTimestamp
         else if operationType c = ''update'' then emit b3 (''update:'' @ modelName) changeWithTimestamp
         else if operationType c = ''delete'' then emit b3 (''delete:'' @ modelName) changeWithTimestamp
         else if operationType c = ''replace'' then emit b3 (''replace:'' @ modelName) changeWithTimestamp
         else b3)"

text \<open>
  \<open>triggerChange\<close>, the manual injection: a mock event for the document, already stamped,
  passed through \<open>handleChange\<close>; nothing happens on a disabled bus.
\<close>

definition triggerChange :: "string \<Rightarrow> string \<Rightarrow> nat \<Rightarrow> string \<Rightarrow> int \<Rightarrow> cdc \<Rightarrow> cdc" where
  "triggerChange modelName opType docId doc now b =
     (if \<not> isEnabled b then b
      else handleChange modelName
             \<lparr>operationType = opType, documentKey = docId, clusterTime = now,
              fullDocument = doc, cdcTimestamp = Some now, cdcModelName = Some modelName,
              cdcManuallyTriggered = True\<rparr> now b)"

text \<open>The events one delivery publishes, in order.\<close>

definition eventsOf :: "string \<Rightarrow> change \<Rightarrow> int \<Rightarrow> (string \<times> change) list" where
  "eventsOf modelName c now =
     (let cw = stamp modelName now c
      in [(''change:'' @ modelName, cw), (''change'', cw)] @
         (if operationType c \<in> {''insert'', ''update'', ''delete'', ''replace''}
          then [(operationType c @ '':'' @ modelName, cw)] else []))"

definition sampleChange :: change where
  "sampleChange =
     \<lparr>operationType = ''update'', documentKey = 7, clusterTime = 100,
      fullDocument = ''{}'', cdcTimestamp = None, cdcModelName = None,
      cdcManuallyTriggered = False\<rparr>"

definition fullBus :: cdc where
  "fullBus = (CDC_constructor True)\<lparr>changeLog := replicate 1000 sampleChange\<rparr>"

section \<open>Notions used in the proofs\<close>

text \<open>A player whose save would be rejected.\<close>

definition rejected :: "player \<Rightarrow> bool" where
  "rejected p = (age p < 16 \<or> 50 < age p)"

text \<open>
  What a run of the loop may have done to a store: contracts are unchanged or set to
  Expired, players that the hook rejects are untouched.
\<close>

definition swept :: "store \<Rightarrow> store \<Rightarrow> bool" where
  "swept s s' =
     (length (contracts s') = length (contracts s) \<and>
      (\<forall>j < length (contracts s).
          contracts s' ! j = contracts s ! j \<or>
          contracts s' ! j = (contracts s ! j)\<lparr>status := Expired\<rparr>) \<and>
      length (players s') = length (players s) \<and>
      (\<forall>j < length (players s). rejected (players s ! j) \<longrightarrow> players s' ! j = players s ! j))"

definition activeClubs :: "store \<Rightarrow> nat \<Rightarrow> nat set" where
  "activeClubs s P = clubId ` set (activeContracts s P)"

text \<open>Contracts keep their place; one that changed is no longer Active.\<close>

definition demoted :: "contract list \<Rightarrow> contract list \<Rightarrow> bool" where
  "demoted cs cs' =
     (length cs' = length cs \<and> (\<forall>j < length cs. cs' ! j = cs ! j \<or> status (cs' ! j) \<noteq> Active))"

section \<open>Sample stores and inputs\<close>

definition emptyStore :: store where
  "emptyStore = \<lparr>players = [], clubs = [], contracts = [], transfers = []\<rparr>"

definition playerX :: player where
  "playerX = \<lparr>age = 26, currentClub = None, marketValue = 5000000\<rparr>"

definition baseStore :: store where
  "baseStore =
     \<lparr>players = [playerX],
      clubs = [\<lparr>budget = 10000000, currentSquad = []\<rparr>, \<lparr>budget = 15000000, currentSquad = []\<rparr>],
      contracts = [], transfers = []\<rparr>"

definition firstContract :: contractData where
  "firstContract =
     \<lparr>cd_playerId = Some 0, cd_clubId = Some 0, cd_startDate = Some 0,
      cd_endDate = Some 31536000000, cd_salary = Some 100000, cd_clauses = None,
      cd_status = None\<rparr>"

definition backwardContract :: contractData where
  "backwardContract = firstContract\<lparr>cd_startDate := Some 10, cd_endDate := Some 5\<rparr>"

definition signedStore :: store where
  "signedStore = snd (createContract baseStore firstContract)"

definition noData :: contractData where
  "noData = \<lparr>cd_playerId = None, cd_clubId = None, cd_startDate = None, cd_endDate = None,
             cd_salary = None, cd_clauses = None, cd_status = None\<rparr>"

definition betterTerms :: contractData where
  "betterTerms = noData\<lparr>cd_endDate := Some 94608001000, cd_salary := Some 150000\<rparr>"


definition otherClubTerms :: contractData where
  "otherClubTerms = betterTerms\<lparr>cd_clubId := Some 1\<rparr>"

definition julyDate :: jsdate where
  "julyDate = \<lparr>getTime = 1783850400000, getMonth = 6\<rparr>"

definition octoberDate :: jsdate where
  "octoberDate = \<lparr>getTime = 1791799200000, getMonth = 9\<rparr>"

definition offer :: transferData where
  "offer =
     \<lparr>td_playerId = Some 0, td_fromClub = Some 0, td_toClub = Some 1,
      td_transferFee = Some 7000000, td_date = DateOf julyDate,
      td_transferType = Some Permanent, td_status = None, td_transferWindow = Some Summer,
      td_loanDuration = None, td_contractDetails = None, td_sellOnClause = None\<rparr>"

definition octoberOffer :: transferData where
  "octoberOffer = offer\<lparr>td_date := DateOf octoberDate\<rparr>"

definition completedOffer :: transferData where
  "completedOffer = offer\<lparr>td_status := Some Completed\<rparr>"

definition sellOnOffer :: transferData where
  "sellOnOffer = offer\<lparr>td_sellOnClause := Some \<lparr>percentage = 20, active = True\<rparr>\<rparr>"

definition youngX :: player where
  "youngX = playerX\<lparr>age := 22\<rparr>"

definition youngStore :: store where
  "youngStore = baseStore\<lparr>players := [youngX]\<rparr>"

definition pendingSellOn :: store where
  "pendingSellOn = snd (initiateTransfer julyDate signedStore sellOnOffer)"

lemmas contract_eval =
  createContract_def createContract_in_def validateContract_def findById_def
  Contract_create_def setCurrentClub_def addToSquad_def Player_save_def
  calculateClubSalaryExpenses_def minDuration_def maxDuration_def Let_def
  renewContract_def renewContract_in_def terminateContract_in_def spread_def orElse_def
  updatePlayerValueOnRenewal_def msPerYear_def Math_round_def

lemmas transfer_eval =
  initiateTransfer_def initiateTransfer_in_def initiateTransfer_2_def initiateTransfer_in_2_def
  validateTransfer_def validateTransferWindow_def new_Date_def dateOr_def
  validateClubBudgets_def
  validateContractStatus_def validateSquadRegistration_def Transfer_new_def
  Transfer_insert_def determineTransferWindow_def reserveFunds_def reserveClubBudgets_def
  findById_def Let_def

lemmas complete_eval =
  completeTransfer_def completeTransfer_in_def terminateActiveWithOrigin_def
  terminateOldContract_def terminateContract_in_def createWithDestination_def
  movePlayer_def updateClubBudgets_def saveSquads_def Player_save_def findById_def
  Let_def updatePlayerValue_def

subsection \<open>The expiry sweep\<close>

lemma expiredContracts_mem:
  "(i, c) \<in> set (expiredContracts today s) \<longleftrightarrow>
     i < length (contracts s) \<and> c = contracts s ! i \<and> status c = Active \<and> endDate c < today"
  by (auto simp: expiredContracts_def in_set_enumerate_eq)

lemma saveExpired_simps [simp]:
  "players (saveExpired s i) = players s"
  "clubs (saveExpired s i) = clubs s"
  "length (contracts (saveExpired s i)) = length (contracts s)"
  by (simp_all add: saveExpired_def)

lemma saveExpired_nth:
  "j < length (contracts s) \<Longrightarrow>
   contracts (saveExpired s i) ! j =
     (if j = i then (contracts s ! j)\<lparr>status := Expired\<rparr> else contracts s ! j)"
  by (simp add: saveExpired_def nth_list_update)

lemma swept_refl: "swept s s"
  by (simp add: swept_def)

lemma swept_trans:
  assumes "swept s s1" and "swept s1 s2"
  shows "swept s s2"
  unfolding swept_def
proof (intro conjI allI impI)
  show "length (contracts s2) = length (contracts s)"
    using assms by (simp add: swept_def)
  show "length (players s2) = length (players s)"
    using assms by (simp add: swept_def)
next
  fix j assume j: "j < length (contracts s)"
  then have a: "contracts s1 ! j = contracts s ! j \<or>
                contracts s1 ! j = (contracts s ! j)\<lparr>status := Expired\<rparr>"
    using assms(1) by (simp add: swept_def)
  have b: "contracts s2 ! j = contracts s1 ! j \<or>
           contracts s2 ! j = (contracts s1 ! j)\<lparr>status := Expired\<rparr>"
    using assms j by (simp add: swept_def)
  from a b show "contracts s2 ! j = contracts s ! j \<or>
                 contracts s2 ! j = (contracts s ! j)\<lparr>status := Expired\<rparr>"
    by auto
next
  fix j assume j: "j < length (players s)" and r: "rejected (players s ! j)"
  then have "players s1 ! j = players s ! j" using assms(1) by (simp add: swept_def)
  moreover from this j r have "players s2 ! j = players s1 ! j"
    using assms by (simp add: swept_def)
  ultimately show "players s2 ! j = players s ! j" by simp
qed

lemma expireContract_Inr_cases:
  assumes "expireContract s x = Inr s'"
  shows "s' = saveExpired s (fst x) \<or>
         (\<exists>p. findById (players s) (playerId (snd x)) = Some p \<and> \<not> rejected p \<and>
              s' = (saveExpired s (fst x))
                     \<lparr>players := (players s)[playerId (snd x) := p\<lparr>currentClub := None\<rparr>]\<rparr>)"
proof (cases "findById (players s) (playerId (snd x))")
  case None
  with assms show ?thesis by (simp add: expireContract_def Let_def)
next
  case (Some p)
  with assms show ?thesis
    by (auto simp: expireContract_def Let_def Player_save_def rejected_def split: if_splits)
qed

lemma expireContract_Inr_contracts:
  "expireContract s x = Inr s' \<Longrightarrow> contracts s' = contracts (saveExpired s (fst x))"
  by (drule expireContract_Inr_cases) auto

lemma expireContract_Inr_swept:
  assumes "expireContract s x = Inr s'"
  shows "swept s s'"
proof -
  have c: "contracts s' = contracts (saveExpired s (fst x))"
    using assms by (rule expireContract_Inr_contracts)
  have "\<forall>j < length (contracts s).
          contracts s' ! j = contracts s ! j \<or>
          contracts s' ! j = (contracts s ! j)\<lparr>status := Expired\<rparr>"
    by (simp add: c saveExpired_nth)
  moreover have "length (players s') = length (players s)"
    using expireContract_Inr_cases [OF assms] by auto
  moreover have "players s' ! j = players s ! j"
    if "j < length (players s)" and "rejected (players s ! j)" for j
    using expireContract_Inr_cases [OF assms] that
    by (auto simp: findById_def nth_list_update split: if_splits)
  ultimately show ?thesis by (simp add: swept_def c)
qed

lemma sweepEach_swept: "sweepEach xs s n = (n', s') \<Longrightarrow> swept s s'"
proof (induction xs arbitrary: s n)
  case Nil
  then show ?case by (simp add: swept_refl)
next
  case (Cons x xs)
  show ?case
  proof (cases "expireContract s x")
    case (Inl e)
    with Cons show ?thesis by simp
  next
    case (Inr s1)
    with Cons.prems have "sweepEach xs s1 (n + 1) = (n', s')" by simp
    then have "swept s1 s'" by (rule Cons.IH)
    with expireContract_Inr_swept [OF Inr] show ?thesis by (rule swept_trans)
  qed
qed

text \<open>Whether an iteration throws depends on the rejected players only.\<close>

lemma expireContract_Inl_iff:
  "(\<exists>e. expireContract s x = Inl e) \<longleftrightarrow>
     (\<exists>p. findById (players s) (playerId (snd x)) = Some p \<and>
          currentClub p = Some (clubId (snd x)) \<and> rejected p)"
  by (auto simp: expireContract_def Let_def Player_save_def rejected_def
           split: option.splits)

lemma expireContract_Inl_swept:
  assumes "expireContract s x = Inl e" and "swept s s'"
  shows "\<exists>e'. expireContract s' x = Inl e'"
proof -
  from assms(1) obtain p where p: "findById (players s) (playerId (snd x)) = Some p"
      "currentClub p = Some (clubId (snd x))" "rejected p"
    using expireContract_Inl_iff by blast
  then have "findById (players s') (playerId (snd x)) = Some p"
    using assms(2) by (auto simp: findById_def swept_def split: if_splits)
  with p show ?thesis using expireContract_Inl_iff by blast
qed

lemma expired_stays:
  assumes "swept s s'" and "i < length (contracts s)" and "status (contracts s ! i) = Expired"
  shows "status (contracts s' ! i) = Expired"
  using assms by (auto simp: swept_def)

lemma sweepEach_rest:
  assumes "sweepEach xs s n = (n', s')" and "x \<in> set xs" and "fst x < length (contracts s)"
  shows "status (contracts s' ! fst x) = Expired \<or> (\<exists>e. expireContract s' x = Inl e)"
  using assms
proof (induction xs arbitrary: s n)
  case Nil
  then show ?case by simp
next
  case (Cons y ys)
  show ?case
  proof (cases "expireContract s y")
    case (Inl e)
    with Cons.prems have run: "sweepEach ys s n = (n', s')" by simp
    show ?thesis
    proof (cases "x = y")
      case True
      with Inl sweepEach_swept [OF run] show ?thesis
        using expireContract_Inl_swept by blast
    next
      case False
      with Cons.prems have "x \<in> set ys" by simp
      from Cons.IH [OF run this Cons.prems(3)] show ?thesis .
    qed
  next
    case (Inr s1)
    with Cons.prems have run: "sweepEach ys s1 (n + 1) = (n', s')" by simp
    have len: "length (contracts s1) = length (contracts s)"
      using expireContract_Inr_swept [OF Inr] by (simp add: swept_def)
    show ?thesis
    proof (cases "x = y")
      case True
      have "contracts s1 = contracts (saveExpired s (fst y))"
        using Inr by (rule expireContract_Inr_contracts)
      then have "status (contracts s1 ! fst x) = Expired"
        using True Cons.prems(3) by (simp add: saveExpired_nth)
      with sweepEach_swept [OF run] Cons.prems(3) len show ?thesis
        using expired_stays by auto
    next
      case False
      with Cons.prems have "x \<in> set ys" by simp
      from Cons.IH [OF run this] Cons.prems(3) len show ?thesis by simp
    qed
  qed
qed

lemma sweepEach_all_fail:
  "\<forall>x \<in> set xs. \<exists>e. expireContract s x = Inl e \<Longrightarrow> sweepEach xs s n = (n, s)"
  by (induction xs) force+

lemma second_sweep_each:
  assumes "processExpiredContracts_each today s = (n, s')"
  shows "processExpiredContracts_each today s' = (0, s')"
proof -
  from assms have run: "sweepEach (expiredContracts today s) s 0 = (n, s')"
    by (simp add: processExpiredContracts_each_def)
  have sw: "swept s s'" using run by (rule sweepEach_swept)
  have "\<exists>e. expireContract s' x = Inl e" if x: "x \<in> set (expiredContracts today s')" for x
  proof -
    obtain i c where ic: "x = (i, c)" by (cases x)
    with x have i: "i < length (contracts s')" and c: "c = contracts s' ! i"
      and a: "status c = Active" and e: "endDate c < today"
      by (auto simp: expiredContracts_mem)
    from sw i have i': "i < length (contracts s)" by (simp add: swept_def)
    with sw have "contracts s' ! i = contracts s ! i \<or>
                  contracts s' ! i = (contracts s ! i)\<lparr>status := Expired\<rparr>"
      by (simp add: swept_def)
    with a c have same: "contracts s' ! i = contracts s ! i" by auto
    with i' c a e have "x \<in> set (expiredContracts today s)"
      by (simp add: ic expiredContracts_mem)
    from sweepEach_rest [OF run this] i' ic have
      "status (contracts s' ! i) = Expired \<or> (\<exists>e. expireContract s' x = Inl e)" by simp
    with a c show ?thesis by simp
  qed
  then have "\<forall>x \<in> set (expiredContracts today s'). \<exists>e. expireContract s' x = Inl e"
    by blast
  then show ?thesis
    by (simp add: processExpiredContracts_each_def sweepEach_all_fail)
qed

lemma sweepAll_count_store:
  "sweepAll xs s n = (n + length xs, fold (\<lambda>x t. saveExpired t (fst x)) xs s)"
  by (induction xs arbitrary: s n) simp_all

lemma fold_saveExpired_length [simp]:
  "length (contracts (fold (\<lambda>x t. saveExpired t (fst x)) xs s)) = length (contracts s)"
  by (induction xs arbitrary: s) simp_all

lemma fold_saveExpired_nth:
  "i < length (contracts s) \<Longrightarrow>
   contracts (fold (\<lambda>x t. saveExpired t (fst x)) xs s) ! i =
     (if i \<in> fst ` set xs then (contracts s ! i)\<lparr>status := Expired\<rparr> else contracts s ! i)"
proof (induction xs arbitrary: s)
  case Nil
  then show ?case by simp
next
  case (Cons x xs)
  have "i < length (contracts (saveExpired s (fst x)))" using Cons.prems by simp
  from Cons.IH [OF this] Cons.prems show ?case
    by (auto simp: saveExpired_nth)
qed

lemma second_sweep_all:
  assumes "processExpiredContracts today s = (n, s')"
  shows "processExpiredContracts today s' = (0, s')"
proof -
  let ?xs = "expiredContracts today s"
  from assms have s': "s' = fold (\<lambda>x t. saveExpired t (fst x)) ?xs s"
    by (simp add: processExpiredContracts_def sweepAll_count_store)
  have "expiredContracts today s' = []"
  proof (rule ccontr)
    assume "expiredContracts today s' \<noteq> []"
    then obtain x where x: "x \<in> set (expiredContracts today s')"
      by (meson last_in_set)
    obtain i c where ic: "x = (i, c)" by (cases x)
    with x have i: "i < length (contracts s')" and c: "c = contracts s' ! i"
      and a: "status c = Active" and e: "endDate c < today"
      by (auto simp: expiredContracts_mem)
    from i have i': "i < length (contracts s)" by (simp add: s')
    have nth: "contracts s' ! i =
             (if i \<in> fst ` set ?xs then (contracts s ! i)\<lparr>status := Expired\<rparr>
              else contracts s ! i)"
      unfolding s' using i' by (rule fold_saveExpired_nth)
    with a c have ni: "i \<notin> fst ` set ?xs" by (auto split: if_splits)
    with nth have "contracts s' ! i = contracts s ! i" by simp
    with e c a i' have "(i, contracts s ! i) \<in> set ?xs"
      by (simp add: expiredContracts_mem)
    with ni show False by force
  qed
  then show ?thesis by (simp add: processExpiredContracts_def)
qed

text \<open>
  C7.  For every store and date, a second \<open>processExpiredContracts\<close> run directly after a
  first one with the same date returns the count 0 and leaves the store of the first run
  unchanged.  This holds for the listing with one transaction per contract, where the
  contracts whose transaction aborted in the first run abort again, and for the listing
  with a single transaction.
\<close>

theorem second_sweep_returns_zero:
  "processExpiredContracts_each today (snd (processExpiredContracts_each today s))
     = (0, snd (processExpiredContracts_each today s)) \<and>
   processExpiredContracts today (snd (processExpiredContracts today s))
     = (0, snd (processExpiredContracts today s))"
proof
  show "processExpiredContracts_each today (snd (processExpiredContracts_each today s))
     = (0, snd (processExpiredContracts_each today s))"
    by (rule second_sweep_each [of today s "fst (processExpiredContracts_each today s)"]) simp
  show "processExpiredContracts today (snd (processExpiredContracts today s))
     = (0, snd (processExpiredContracts today s))"
    by (rule second_sweep_all [of today s "fst (processExpiredContracts today s)"]) simp
qed

subsection \<open>What the contract operations do to the collections\<close>

lemma Player_save_frame:
  "Player_save s pid p = Inr s' \<Longrightarrow>
   contracts s' = contracts s \<and> clubs s' = clubs s \<and> transfers s' = transfers s \<and>
   players s' = (players s)[pid := p]"
  by (auto simp: Player_save_def split: if_splits)

lemma setCurrentClub_frame:
  "setCurrentClub s pid cid = Inr s' \<Longrightarrow>
   contracts s' = contracts s \<and> clubs s' = clubs s \<and> transfers s' = transfers s"
  by (auto simp: setCurrentClub_def dest: Player_save_frame split: option.splits)

lemma addToSquad_frame:
  "contracts (addToSquad s cid pid) = contracts s \<and>
   players (addToSquad s cid pid) = players s \<and>
   transfers (addToSquad s cid pid) = transfers s"
  by (simp add: addToSquad_def split: option.splits)

lemma Contract_create_Inr:
  assumes "Contract_create s d = Inr (s', n)"
  shows "n = length (contracts s) \<and>
         s' = s\<lparr>contracts := contracts s @
                 [\<lparr>playerId = the (cd_playerId d), clubId = the (cd_clubId d),
                   startDate = the (cd_startDate d), endDate = the (cd_endDate d),
                   salary = the (cd_salary d),
                   clauses = (case cd_clauses d of None \<Rightarrow> [] | Some cl \<Rightarrow> cl),
                   status = Active\<rparr>]\<rparr>"
  using assms by (auto simp: Contract_create_def split: if_splits)

lemma validateContract_Inr:
  assumes "validateContract committed s d = Inr u"
  shows "cd_playerId d \<noteq> None \<and> cd_clubId d \<noteq> None \<and> cd_startDate d \<noteq> None \<and>
         cd_endDate d \<noteq> None \<and> cd_salary d \<noteq> None \<and>
         the (cd_startDate d) < the (cd_endDate d) \<and>
         the (cd_playerId d) < length (players s) \<and> the (cd_clubId d) < length (clubs s) \<and>
         find (\<lambda>c. playerId c = the (cd_playerId d) \<and> status c = Active \<and>
                    clubId c \<noteq> the (cd_clubId d)) (contracts s) = None"
proof -
  from assms have req: "\<not> (cd_playerId d = None \<or> cd_clubId d = None \<or> cd_startDate d = None \<or>
         cd_endDate d = None \<or> cd_salary d = None)"
    by (auto simp: validateContract_def split: if_splits)
  with assms show ?thesis
    by (simp add: validateContract_def Let_def findById_def
             split: option.splits if_splits)
qed

text \<open>A successful creation appends exactly one contract: Active, for the player and club
  of the data, and only after the check that the player has no Active contract with
  another club.\<close>

lemma createContract_in_Inr:
  assumes "createContract_in committed s d = Inr (s', n)"
  shows "n = length (contracts s) \<and>
         contracts s' = contracts s @
                 [\<lparr>playerId = the (cd_playerId d), clubId = the (cd_clubId d),
                   startDate = the (cd_startDate d), endDate = the (cd_endDate d),
                   salary = the (cd_salary d),
                   clauses = (case cd_clauses d of None \<Rightarrow> [] | Some cl \<Rightarrow> cl),
                   status = Active\<rparr>] \<and>
         transfers s' = transfers s \<and>
         find (\<lambda>c. playerId c = the (cd_playerId d) \<and> status c = Active \<and>
                    clubId c \<noteq> the (cd_clubId d)) (contracts s) = None"
proof -
  from assms obtain u where v: "validateContract committed s d = Inr u"
    by (auto simp: createContract_in_def split: sum.splits)
  from assms v obtain s1 where c: "Contract_create s d = Inr (s1, n)"
    by (auto simp: createContract_in_def split: sum.splits)
  from assms v c obtain s2 where
    p: "setCurrentClub s1 (the (cd_playerId d)) (the (cd_clubId d)) = Inr s2" and
    s': "s' = addToSquad s2 (the (cd_clubId d)) (the (cd_playerId d))"
    by (auto simp: createContract_in_def split: sum.splits)
  from Contract_create_Inr [OF c] setCurrentClub_frame [OF p] s' validateContract_Inr [OF v]
  show ?thesis by (simp add: addToSquad_frame)
qed

lemma terminateContract_in_Inr:
  assumes "terminateContract_in now s i td = Inr s'"
  shows "i < length (contracts s) \<and> status (contracts s ! i) = Active \<and>
         players s' = players s \<and> clubs s' = clubs s \<and> transfers s' = transfers s \<and>
         length (contracts s') = length (contracts s) \<and>
         status (contracts s' ! i) = Terminated \<and>
         playerId (contracts s' ! i) = playerId (contracts s ! i) \<and>
         clubId (contracts s' ! i) = clubId (contracts s ! i) \<and>
         map_of (clauses (contracts s' ! i)) ''terminationReason'' =
           Some (Text (case reason td of None \<Rightarrow> ''Transfer''
                       | Some x \<Rightarrow> if x = [] then ''Transfer'' else x)) \<and>
         (\<forall>j. j \<noteq> i \<longrightarrow> contracts s' ! j = contracts s ! j)"
  using assms
  by (auto simp: terminateContract_in_def findById_def Let_def update_conv
           split: if_splits option.splits)

lemma updatePlayerValueOnRenewal_frame:
  "updatePlayerValueOnRenewal s pid c = Inr s' \<Longrightarrow>
   contracts s' = contracts s \<and> clubs s' = clubs s \<and> transfers s' = transfers s"
  by (auto simp: updatePlayerValueOnRenewal_def Let_def dest: Player_save_frame
           split: option.splits)

lemma saveSquads_frame [simp]:
  "contracts (saveSquads l s pid f t) = contracts s"
  "players (saveSquads l s pid f t) = players s"
  "transfers (saveSquads l s pid f t) = transfers s"
  by (simp_all add: saveSquads_def Let_def)

lemma completeTransfer_in_Inr:
  assumes "completeTransfer_in now s tid cd = Inr s'"
  shows "\<exists>t s1 s2 newId s3 s4.
       findById (transfers s) tid = Some t \<and> t_status t = Pending \<and>
       terminateActiveWithOrigin now s (t_playerId t) (fromClub t) = Inr s1 \<and>
       createWithDestination now s s1 (t_playerId t) (toClub t) cd = Inr (s2, newId) \<and>
       movePlayer s2 (t_playerId t) (toClub t) (transferFee t) = Inr s3 \<and>
       updateClubBudgets s3 (fromClub t) (toClub t) (transferFee t) = Inr s4 \<and>
       s' = saveSquads s
              (s4\<lparr>transfers := (transfers s4)[tid :=
                      t\<lparr>t_status := Completed,
                        contractDetails :=
                          (case newId of None \<Rightarrow> contractDetails t | Some n \<Rightarrow> Some n)\<rparr>]\<rparr>)
              (t_playerId t) (fromClub t) (toClub t)"
  using assms unfolding completeTransfer_in_def
  by (auto split: option.splits if_splits sum.splits prod.splits)

lemma renewContract_in_Inr:
  assumes "renewContract_in now s i rd = Inr (s', n)"
  shows "\<exists>old s1 s2.
       findById (contracts s) i = Some old \<and> status old = Active \<and>
       terminateContract_in now s i \<lparr>reason = Some ''Renewal'', compensationFee = None\<rparr> = Inr s1 \<and>
       createContract_in s s1
          (spread \<lparr>cd_playerId = Some (playerId old), cd_clubId = Some (clubId old),
                   cd_startDate = Some now, cd_endDate = None, cd_salary = None,
                   cd_clauses = None, cd_status = None\<rparr> rd) = Inr (s2, n) \<and>
       updatePlayerValueOnRenewal s2 (playerId old) (contracts s2 ! n) = Inr s'"
  using assms unfolding renewContract_in_def
  by (auto split: option.splits if_splits sum.splits prod.splits)

subsection \<open>One club per player\<close>

lemma demoted_refl: "demoted cs cs"
  by (simp add: demoted_def)

lemma demoted_activeClubs:
  assumes "demoted (contracts s) (contracts s')"
  shows "activeClubs s' P \<subseteq> activeClubs s P"
proof
  fix k assume "k \<in> activeClubs s' P"
  then obtain c where c: "c \<in> set (contracts s')" "playerId c = P" "status c = Active"
      "clubId c = k"
    by (auto simp: activeClubs_def activeContracts_def)
  then obtain j where j: "j < length (contracts s')" "contracts s' ! j = c"
    by (auto simp: in_set_conv_nth)
  with assms c have "contracts s ! j = c" "j < length (contracts s)"
    by (auto simp: demoted_def)
  then have "c \<in> set (contracts s)" by (auto simp: in_set_conv_nth)
  with c show "k \<in> activeClubs s P"
    by (auto simp: activeClubs_def activeContracts_def)
qed

lemma finite_activeClubs [simp]: "finite (activeClubs s P)"
  by (simp add: activeClubs_def)

lemma demoted_keeps:
  assumes "demoted (contracts s) (contracts s')" and "card (activeClubs s P) \<le> 1"
  shows "card (activeClubs s' P) \<le> 1"
proof -
  have "card (activeClubs s' P) \<le> card (activeClubs s P)"
    by (rule card_mono) (simp_all add: demoted_activeClubs [OF assms(1)])
  with assms(2) show ?thesis by simp
qed

lemma same_contracts_keeps:
  "contracts s' = contracts s \<Longrightarrow> activeClubs s' P = activeClubs s P"
  by (simp add: activeClubs_def activeContracts_def)

lemma append_guarded_keeps:
  assumes app: "contracts s' = contracts s @ [c]"
    and guard: "find (\<lambda>x. playerId x = playerId c \<and> status x = Active \<and> clubId x \<noteq> clubId c)
                  (contracts s) = None"
    and inv: "card (activeClubs s P) \<le> 1"
  shows "card (activeClubs s' P) \<le> 1"
proof (cases "playerId c = P \<and> status c = Active")
  case False
  then have "activeClubs s' P = activeClubs s P"
    by (auto simp: activeClubs_def activeContracts_def app)
  with inv show ?thesis by simp
next
  case True
  have "activeClubs s P \<subseteq> {clubId c}"
    using guard True by (auto simp: activeClubs_def activeContracts_def find_None_iff)
  moreover have "activeClubs s' P = insert (clubId c) (activeClubs s P)"
    using True by (auto simp: activeClubs_def activeContracts_def app)
  ultimately have "activeClubs s' P \<subseteq> {clubId c}" by auto
  then have "card (activeClubs s' P) \<le> card {clubId c}"
    by (intro card_mono) simp_all
  then show ?thesis by simp
qed

lemma createContract_in_keeps:
  assumes "createContract_in committed s d = Inr (s', n)" and "card (activeClubs s P) \<le> 1"
  shows "card (activeClubs s' P) \<le> 1"
proof -
  let ?c = "\<lparr>playerId = the (cd_playerId d), clubId = the (cd_clubId d),
             startDate = the (cd_startDate d), endDate = the (cd_endDate d),
             salary = the (cd_salary d),
             clauses = (case cd_clauses d of None \<Rightarrow> [] | Some cl \<Rightarrow> cl),
             status = Active\<rparr>"
  from createContract_in_Inr [OF assms(1)]
  have "contracts s' = contracts s @ [?c]"
    and "find (\<lambda>x. playerId x = playerId ?c \<and> status x = Active \<and> clubId x \<noteq> clubId ?c)
           (contracts s) = None"
    by simp_all
  then show ?thesis using assms(2) by (rule append_guarded_keeps)
qed

lemma terminateContract_in_demoted:
  assumes "terminateContract_in now s i td = Inr s'"
  shows "demoted (contracts s) (contracts s')"
  unfolding demoted_def
proof (intro conjI allI impI)
  from terminateContract_in_Inr [OF assms]
  show "length (contracts s') = length (contracts s)" by simp
next
  fix j assume "j < length (contracts s)"
  from terminateContract_in_Inr [OF assms]
  show "contracts s' ! j = contracts s ! j \<or> status (contracts s' ! j) \<noteq> Active"
    by (cases "j = i") auto
qed

lemma swept_demoted: "swept s s' \<Longrightarrow> demoted (contracts s) (contracts s')"
  by (auto simp: swept_def demoted_def)

lemma fold_saveExpired_demoted:
  "demoted (contracts s) (contracts (fold (\<lambda>x t. saveExpired t (fst x)) xs s))"
  by (auto simp: demoted_def fold_saveExpired_nth)

lemma renewContract_in_keeps:
  assumes "renewContract_in now s i rd = Inr (s', n)" and "card (activeClubs s P) \<le> 1"
  shows "card (activeClubs s' P) \<le> 1"
proof -
  from renewContract_in_Inr [OF assms(1)] obtain old s1 s2 where
    "findById (contracts s) i = Some old" and "status old = Active" and
    t: "terminateContract_in now s i \<lparr>reason = Some ''Renewal'', compensationFee = None\<rparr> = Inr s1"
    and c: "createContract_in s s1
          (spread \<lparr>cd_playerId = Some (playerId old), cd_clubId = Some (clubId old),
                   cd_startDate = Some now, cd_endDate = None, cd_salary = None,
                   cd_clauses = None, cd_status = None\<rparr> rd) = Inr (s2, n)"
    and u: "updatePlayerValueOnRenewal s2 (playerId old) (contracts s2 ! n) = Inr s'"
    by (elim exE conjE) (rule that)
  have "card (activeClubs s1 P) \<le> 1"
    using terminateContract_in_demoted [OF t] assms(2) by (rule demoted_keeps)
  with c have "card (activeClubs s2 P) \<le> 1" by (rule createContract_in_keeps)
  moreover have "contracts s' = contracts s2"
    using updatePlayerValueOnRenewal_frame [OF u] by simp
  ultimately show ?thesis by (simp add: same_contracts_keeps [of s' s2])
qed

lemma terminateActiveWithOrigin_keeps:
  assumes "terminateActiveWithOrigin now s pid f = Inr s1" and "card (activeClubs s P) \<le> 1"
  shows "card (activeClubs s1 P) \<le> 1"
proof (cases "find (\<lambda>(i, c). playerId c = pid \<and> clubId c = f \<and> status c = Active)
                (enumerate 0 (contracts s))")
  case None
  with assms show ?thesis by (simp add: terminateActiveWithOrigin_def)
next
  case (Some ic)
  with assms(1) have "terminateOldContract now s (fst ic) = Inr s1"
    by (simp add: terminateActiveWithOrigin_def case_prod_beta)
  then have "demoted (contracts s) (contracts s1)"
    unfolding terminateOldContract_def by (rule terminateContract_in_demoted)
  then show ?thesis using assms(2) by (rule demoted_keeps)
qed

lemma createWithDestination_keeps:
  assumes "createWithDestination now committed s1 pid toId cd = Inr (s2, newId)"
    and "card (activeClubs s1 P) \<le> 1"
  shows "card (activeClubs s2 P) \<le> 1"
proof (cases cd)
  case None
  with assms show ?thesis by (simp add: createWithDestination_def)
next
  case (Some x)
  let ?d = "spread \<lparr>cd_playerId = Some pid, cd_clubId = Some toId,
                   cd_startDate = Some now, cd_endDate = None, cd_salary = None,
                   cd_clauses = None, cd_status = None\<rparr> x"
  show ?thesis
  proof (cases "createContract_in committed s1 ?d")
    case (Inl e)
    with assms(1) Some show ?thesis
      by (simp add: createWithDestination_def createNewContract_def)
  next
    case (Inr r)
    with assms(1) Some have "fst r = s2"
      by (simp add: createWithDestination_def createNewContract_def case_prod_beta)
    with Inr have "createContract_in committed s1 ?d = Inr (s2, snd r)"
      by (metis prod.collapse)
    then show ?thesis using assms(2) by (rule createContract_in_keeps)
  qed
qed

lemma movePlayer_contracts:
  "movePlayer s pid toId fee = Inr s' \<Longrightarrow> contracts s' = contracts s"
  by (auto simp: movePlayer_def dest: Player_save_frame split: sum.splits)

lemma updateClubBudgets_contracts:
  "updateClubBudgets s f t amount = Inr s' \<Longrightarrow> contracts s' = contracts s"
  by (auto simp: updateClubBudgets_def split: option.splits)

lemma completeTransfer_in_keeps:
  assumes "completeTransfer_in now s tid cd = Inr s'" and "card (activeClubs s P) \<le> 1"
  shows "card (activeClubs s' P) \<le> 1"
proof -
  from completeTransfer_in_Inr [OF assms(1)] obtain t s1 s2 newId s3 s4 where
    "findById (transfers s) tid = Some t" and "t_status t = Pending" and
    a: "terminateActiveWithOrigin now s (t_playerId t) (fromClub t) = Inr s1" and
    b: "createWithDestination now s s1 (t_playerId t) (toClub t) cd = Inr (s2, newId)" and
    c: "movePlayer s2 (t_playerId t) (toClub t) (transferFee t) = Inr s3" and
    d: "updateClubBudgets s3 (fromClub t) (toClub t) (transferFee t) = Inr s4" and
    s': "s' = saveSquads s
              (s4\<lparr>transfers := (transfers s4)[tid :=
                      t\<lparr>t_status := Completed,
                        contractDetails :=
                          (case newId of None \<Rightarrow> contractDetails t | Some n \<Rightarrow> Some n)\<rparr>]\<rparr>)
              (t_playerId t) (fromClub t) (toClub t)"
    by (elim exE conjE) (rule that)
  have "card (activeClubs s1 P) \<le> 1"
    using a assms(2) by (rule terminateActiveWithOrigin_keeps)
  with b have "card (activeClubs s2 P) \<le> 1"
    by (rule createWithDestination_keeps)
  moreover have "contracts s' = contracts s2"
    using movePlayer_contracts [OF c] updateClubBudgets_contracts [OF d]
    by (simp add: s')
  ultimately show ?thesis by (simp add: same_contracts_keeps [of s' s2])
qed

lemma commit_keeps:
  assumes "card (activeClubs s P) \<le> 1"
  shows "card (activeClubs (commit s op) P) \<le> 1"
proof (cases op)
  case (CreateContract d)
  show ?thesis
  proof (cases "createContract_in s s d")
    case (Inl e)
    with assms CreateContract show ?thesis by (simp add: createContract_def)
  next
    case (Inr r)
    then have r: "createContract_in s s d = Inr (fst r, snd r)" by simp
    from createContract_in_keeps [OF r assms] have "card (activeClubs (fst r) P) \<le> 1" .
    with Inr CreateContract show ?thesis
      by (simp add: createContract_def case_prod_beta)
  qed
next
  case (TerminateContract now i td)
  show ?thesis
  proof (cases "terminateContract_in now s i td")
    case (Inl e)
    with assms TerminateContract show ?thesis by (simp add: terminateContract_def)
  next
    case (Inr s')
    from demoted_keeps [OF terminateContract_in_demoted [OF Inr] assms] Inr TerminateContract
    show ?thesis by (simp add: terminateContract_def)
  qed
next
  case (RenewContract now i rd)
  show ?thesis
  proof (cases "renewContract_in now s i rd")
    case (Inl e)
    with assms RenewContract show ?thesis by (simp add: renewContract_def)
  next
    case (Inr r)
    then have r: "renewContract_in now s i rd = Inr (fst r, snd r)" by simp
    from renewContract_in_keeps [OF r assms] have "card (activeClubs (fst r) P) \<le> 1" .
    with Inr RenewContract show ?thesis
      by (simp add: renewContract_def case_prod_beta)
  qed
next
  case (CompleteTransfer now tid cd)
  show ?thesis
  proof (cases "completeTransfer_in now s tid cd")
    case (Inl e)
    with assms CompleteTransfer show ?thesis by (simp add: completeTransfer_def)
  next
    case (Inr s')
    from completeTransfer_in_keeps [OF Inr assms] Inr CompleteTransfer show ?thesis
      by (simp add: completeTransfer_def)
  qed
next
  case (SweepExpiredContracts today)
  have "demoted (contracts s) (contracts (snd (processExpiredContracts today s)))"
    by (simp add: processExpiredContracts_def sweepAll_count_store fold_saveExpired_demoted)
  from demoted_keeps [OF this assms] SweepExpiredContracts show ?thesis by simp
next
  case (SweepExpiredContractsEach today)
  obtain n s' where r: "processExpiredContracts_each today s = (n, s')"
    by (cases "processExpiredContracts_each today s")
  then have "swept s s'"
    unfolding processExpiredContracts_each_def by (rule sweepEach_swept)
  from demoted_keeps [OF swept_demoted [OF this] assms] r SweepExpiredContractsEach
  show ?thesis by simp
qed

section \<open>The claims about the contract operations\<close>

lemma signedStore_eq:
  "signedStore =
     \<lparr>players = [\<lparr>age = 26, currentClub = Some 0, marketValue = 5000000\<rparr>],
      clubs = [\<lparr>budget = 10000000, currentSquad = [0]\<rparr>, \<lparr>budget = 15000000, currentSquad = []\<rparr>],
      contracts = [\<lparr>playerId = 0, clubId = 0, startDate = 0, endDate = 31536000000,
                    salary = 100000, clauses = [], status = Active\<rparr>],
      transfers = []\<rparr>"
  by (simp add: signedStore_def baseStore_def firstContract_def playerX_def contract_eval)

text \<open>
  C1 as stated fails.  \<open>validateContract\<close> rejects a new contract only when the player has an
  Active contract with a different club, so creating the same contract twice (player 0,
  club 0) commits twice and leaves player 0 with two Active contracts.
\<close>

theorem two_active_contracts_counterexample:
  "\<not> length (activeContracts
            (foldl commit baseStore [CreateContract firstContract, CreateContract firstContract])
            0) \<le> 1"
  by (simp add: activeContracts_def baseStore_def firstContract_def playerX_def contract_eval)

text \<open>
  C1 amended.  For every player \<open>P\<close> and every store in which the Active contracts of \<open>P\<close>
  are with at most one club (the empty store is one), the same holds after any sequence of
  committed \<open>createContract\<close>, \<open>terminateContract\<close>, \<open>renewContract\<close>, \<open>completeTransfer\<close> and
  \<open>processExpiredContracts\<close> (either listing) calls, whether they succeed or abort: at most
  one club holds Active contracts of \<open>P\<close>.  How many Active contracts \<open>P\<close> has with that club
  is not bounded.
\<close>

theorem one_active_club_per_player:
  "card (activeClubs s P) \<le> 1 \<Longrightarrow> card (activeClubs (foldl commit s ops) P) \<le> 1"
proof (induction ops arbitrary: s)
  case Nil
  then show ?case by simp
next
  case (Cons op ops)
  have "card (activeClubs (commit s op) P) \<le> 1"
    using Cons.prems by (rule commit_keeps)
  then have "card (activeClubs (foldl commit (commit s op) ops) P) \<le> 1"
    by (rule Cons.IH)
  then show ?case by simp
qed

theorem one_active_club_per_player_witness:
  "card (activeClubs baseStore 0) \<le> 1 \<and>
   card (activeClubs
           (foldl commit baseStore [CreateContract firstContract, CreateContract firstContract])
           0) \<le> 1"
proof -
  have h: "card (activeClubs baseStore 0) \<le> 1"
    by (simp add: activeClubs_def activeContracts_def baseStore_def)
  from one_active_club_per_player [OF h] have
    "card (activeClubs
           (foldl commit baseStore [CreateContract firstContract, CreateContract firstContract])
           0) \<le> 1" .
  with h show ?thesis by (rule conjI)
qed

text \<open>
  C2 as stated fails in the kind of error: the existence of the player and of the club is
  checked before the dates, so for a player that is not in the store the call ends with
  the 404 response, not with a 400 one.
\<close>

theorem createContract_unknown_player_counterexample:
  "the (cd_endDate backwardContract) \<le> the (cd_startDate backwardContract) \<and>
   createContract emptyStore backwardContract
     = (Inl (ErrorResponse ''Player not found with id'' 404), emptyStore) \<and>
   statusCode (ErrorResponse ''Player not found with id'' 404) \<noteq> Some 400"
  by (simp add: backwardContract_def firstContract_def emptyStore_def statusCode_def
        contract_eval)

text \<open>
  C2 amended.  For every store and every contract data whose end date is not after its
  start date, \<open>createContract\<close> throws and leaves the store exactly as it was (no contract,
  player or club is written).  The error is the first one that applies of: the 400
  response for a missing player id, club id or salary; the 404 response for a player that
  is not in the store; the 404 response for a club that is not in the store; the 400
  response for the order of the dates.
\<close>

theorem createContract_end_not_after_start:
  assumes "cd_startDate d = Some b" and "cd_endDate d = Some e" and "e \<le> b"
  shows "createContract s d =
           (Inl (if cd_playerId d = None \<or> cd_clubId d = None \<or> cd_salary d = None
                 then ErrorResponse ''Missing required contract fields'' 400
                 else if findById (players s) (the (cd_playerId d)) = None
                 then ErrorResponse ''Player not found with id'' 404
                 else if findById (clubs s) (the (cd_clubId d)) = None
                 then ErrorResponse ''Club not found with id'' 404
                 else ErrorResponse ''Contract end date must be after start date'' 400),
            s)"
proof -
  have "validateContract s s d =
           Inl (if cd_playerId d = None \<or> cd_clubId d = None \<or> cd_salary d = None
                 then ErrorResponse ''Missing required contract fields'' 400
                 else if findById (players s) (the (cd_playerId d)) = None
                 then ErrorResponse ''Player not found with id'' 404
                 else if findById (clubs s) (the (cd_clubId d)) = None
                 then ErrorResponse ''Club not found with id'' 404
                 else ErrorResponse ''Contract end date must be after start date'' 400)"
    using assms
    by (auto simp: validateContract_def Let_def split: option.splits)
  then show ?thesis
    by (simp add: createContract_def createContract_in_def)
qed

theorem createContract_end_not_after_start_witness:
  "cd_startDate backwardContract = Some 10 \<and> cd_endDate backwardContract = Some 5 \<and>
   (5::int) \<le> 10 \<and>
   createContract baseStore backwardContract
     = (Inl (ErrorResponse ''Contract end date must be after start date'' 400), baseStore)"
proof -
  have h: "cd_startDate backwardContract = Some 10" "cd_endDate backwardContract = Some 5"
      "(5::int) \<le> 10"
    by (simp_all add: backwardContract_def firstContract_def)
  have "cd_playerId backwardContract = Some 0" "cd_clubId backwardContract = Some 0"
      "cd_salary backwardContract = Some 100000"
      "findById (players baseStore) 0 \<noteq> None" "findById (clubs baseStore) 0 \<noteq> None"
    by (simp_all add: backwardContract_def firstContract_def baseStore_def findById_def)
  with createContract_end_not_after_start [OF h, of baseStore] h show ?thesis
    by simp
qed

text \<open>
  What \<open>renewContract\<close> does.  One that throws leaves the store as it was.  One that
  succeeds was called on an Active contract and adds exactly one contract, at the end of
  the collection: it is Active, and its player and club are those of the old contract
  when \<open>renewalData\<close> names none, and the ones \<open>renewalData\<close> names otherwise, because
  \<open>renewalData\<close> is spread after them; the old contract is Terminated with
  \<open>terminationReason\<close> "Renewal", still with its player and club, and every other contract
  is unchanged.
\<close>

lemma renewContract_effect:
  "(renewContract now s i rd = (Inl e, s') \<longrightarrow> s' = s) \<and>
   (renewContract now s i rd = (Inr n, s') \<longrightarrow>
      i < length (contracts s) \<and> status (contracts s ! i) = Active \<and>
      n = length (contracts s) \<and> length (contracts s') = length (contracts s) + 1 \<and>
      status (contracts s' ! n) = Active \<and>
      playerId (contracts s' ! n) =
        (case cd_playerId rd of None \<Rightarrow> playerId (contracts s ! i) | Some p \<Rightarrow> p) \<and>
      clubId (contracts s' ! n) =
        (case cd_clubId rd of None \<Rightarrow> clubId (contracts s ! i) | Some c \<Rightarrow> c) \<and>
      status (contracts s' ! i) = Terminated \<and>
      playerId (contracts s' ! i) = playerId (contracts s ! i) \<and>
      clubId (contracts s' ! i) = clubId (contracts s ! i) \<and>
      map_of (clauses (contracts s' ! i)) ''terminationReason'' = Some (Text ''Renewal'') \<and>
      (\<forall>j < length (contracts s). j \<noteq> i \<longrightarrow> contracts s' ! j = contracts s ! j))"
proof (intro conjI impI)
  assume "renewContract now s i rd = (Inl e, s')"
  then show "s' = s"
    by (auto simp: renewContract_def split: sum.splits)
next
  assume r: "renewContract now s i rd = (Inr n, s')"
  then have r': "renewContract_in now s i rd = Inr (s', n)"
    by (auto simp: renewContract_def split: sum.splits)
  let ?d = "\<lambda>old. spread \<lparr>cd_playerId = Some (playerId old), cd_clubId = Some (clubId old),
                   cd_startDate = Some now, cd_endDate = None, cd_salary = None,
                   cd_clauses = None, cd_status = None\<rparr> rd"
  from renewContract_in_Inr [OF r'] obtain old s1 s2 where
    f: "findById (contracts s) i = Some old" and a: "status old = Active" and
    t: "terminateContract_in now s i \<lparr>reason = Some ''Renewal'', compensationFee = None\<rparr> = Inr s1"
    and c: "createContract_in s s1 (?d old) = Inr (s2, n)"
    and u: "updatePlayerValueOnRenewal s2 (playerId old) (contracts s2 ! n) = Inr s'"
    by (elim exE conjE) (rule that)
  from f have i: "i < length (contracts s)" and old: "old = contracts s ! i"
    by (auto simp: findById_def split: if_splits)
  note T = terminateContract_in_Inr [OF t]
  note C = createContract_in_Inr [OF c]
  from updatePlayerValueOnRenewal_frame [OF u] have U: "contracts s' = contracts s2" by simp
  from T have len1: "length (contracts s1) = length (contracts s)" by simp
  from C have n1: "n = length (contracts s1)" by simp
  from C obtain new where app: "contracts s2 = contracts s1 @ [new]"
    and new: "status new = Active" "playerId new = the (cd_playerId (?d old))"
      "clubId new = the (cd_clubId (?d old))"
    by simp
  have last: "contracts s' ! n = new" by (simp add: U app n1)
  have n: "n = length (contracts s)" using n1 len1 by simp
  have low: "contracts s' ! j = contracts s1 ! j" if "j < length (contracts s)" for j
    using that len1 by (simp add: U app nth_append)
  show "i < length (contracts s)" by (rule i)
  show "status (contracts s ! i) = Active" using a old by simp
  show "n = length (contracts s)" by (rule n)
  show "length (contracts s') = length (contracts s) + 1"
    using len1 by (simp add: U app)
  show "status (contracts s' ! n) = Active"
    using new by (simp add: last)
  show "playerId (contracts s' ! n) =
        (case cd_playerId rd of None \<Rightarrow> playerId (contracts s ! i) | Some p \<Rightarrow> p)"
    using new old by (simp add: last spread_def orElse_def split: option.splits)
  show "clubId (contracts s' ! n) =
        (case cd_clubId rd of None \<Rightarrow> clubId (contracts s ! i) | Some c \<Rightarrow> c)"
    using new old by (simp add: last spread_def orElse_def split: option.splits)
  show "status (contracts s' ! i) = Terminated" using T low [OF i] by simp
  show "playerId (contracts s' ! i) = playerId (contracts s ! i)" using T low [OF i] by simp
  show "clubId (contracts s' ! i) = clubId (contracts s ! i)" using T low [OF i] by simp
  show "map_of (clauses (contracts s' ! i)) ''terminationReason'' = Some (Text ''Renewal'')"
    using T low [OF i] by simp
  show "\<forall>j < length (contracts s). j \<noteq> i \<longrightarrow> contracts s' ! j = contracts s ! j"
    using T low by simp
qed

lemma renewContract_effect_example:
  "renewContract 1000 signedStore 0 betterTerms
     = (Inr 1, snd (renewContract 1000 signedStore 0 betterTerms)) \<and>
   status (contracts (snd (renewContract 1000 signedStore 0 betterTerms)) ! 1) = Active \<and>
   playerId (contracts (snd (renewContract 1000 signedStore 0 betterTerms)) ! 1) = 0 \<and>
   clubId (contracts (snd (renewContract 1000 signedStore 0 betterTerms)) ! 1) = 0 \<and>
   status (contracts (snd (renewContract 1000 signedStore 0 betterTerms)) ! 0) = Terminated \<and>
   renewContract 1000 emptyStore 0 betterTerms
     = (Inl (ErrorResponse ''Contract not found with id'' 404), emptyStore)"
proof -
  have ok: "renewContract 1000 signedStore 0 betterTerms
     = (Inr 1, snd (renewContract 1000 signedStore 0 betterTerms))"
    by (simp add: signedStore_eq betterTerms_def noData_def contract_eval)
  have bad: "renewContract 1000 emptyStore 0 betterTerms
     = (Inl (ErrorResponse ''Contract not found with id'' 404),
        snd (renewContract 1000 emptyStore 0 betterTerms))"
    by (simp add: emptyStore_def contract_eval)
  have p: "cd_playerId betterTerms = None" "cd_clubId betterTerms = None"
    by (simp_all add: betterTerms_def noData_def)
  have old: "playerId (contracts signedStore ! 0) = 0" "clubId (contracts signedStore ! 0) = 0"
    by (simp_all add: signedStore_eq)
  from renewContract_effect [of 1000 emptyStore 0 betterTerms
         "ErrorResponse ''Contract not found with id'' 404"
         "snd (renewContract 1000 emptyStore 0 betterTerms)"] bad
  have "snd (renewContract 1000 emptyStore 0 betterTerms) = emptyStore" by simp
  with bad have bad': "renewContract 1000 emptyStore 0 betterTerms
     = (Inl (ErrorResponse ''Contract not found with id'' 404), emptyStore)" by simp
  note R = renewContract_effect [of 1000 signedStore 0 betterTerms
         "ErrorResponse ''Contract not found with id'' 404"
         "snd (renewContract 1000 signedStore 0 betterTerms)" 1, THEN conjunct2, rule_format, OF ok]
  from R p old have
    "status (contracts (snd (renewContract 1000 signedStore 0 betterTerms)) ! 1) = Active"
    "playerId (contracts (snd (renewContract 1000 signedStore 0 betterTerms)) ! 1) = 0"
    "clubId (contracts (snd (renewContract 1000 signedStore 0 betterTerms)) ! 1) = 0"
    "status (contracts (snd (renewContract 1000 signedStore 0 betterTerms)) ! 0) = Terminated"
    by auto
  with ok bad' show ?thesis by simp
qed

text \<open>
  C5, evaluated on a renewal whose data name another club.  Player 0 has one Active
  contract, with club 0; the renewal data carry the new end date and salary and
  \<open>clubId\<close> 1.  \<open>renewContract\<close> succeeds: the old contract is Terminated with reason
  "Renewal", but the new Active contract is with club 1, not with the club of the
  contract renewed.  The player is now registered with club 1 and is in the squads of
  both clubs, and no budget has moved.
\<close>

theorem renewContract_renewalData_replaces_club:
  "status (contracts signedStore ! 0) = Active \<and> playerId (contracts signedStore ! 0) = 0 \<and>
   clubId (contracts signedStore ! 0) = 0 \<and> cd_clubId otherClubTerms = Some 1 \<and>
   renewContract 1000 signedStore 0 otherClubTerms =
    (Inr 1,
     \<lparr>players = [\<lparr>age = 26, currentClub = Some 1, marketValue = 5550000\<rparr>],
      clubs = [\<lparr>budget = 10000000, currentSquad = [0]\<rparr>,
               \<lparr>budget = 15000000, currentSquad = [0]\<rparr>],
      contracts =
        [\<lparr>playerId = 0, clubId = 0, startDate = 0, endDate = 31536000000, salary = 100000,
          clauses = [(''terminationReason'', Text ''Renewal''),
                     (''terminationDate'', DateValue 1000)],
          status = Terminated\<rparr>,
         \<lparr>playerId = 0, clubId = 1, startDate = 1000, endDate = 94608001000,
           salary = 150000, clauses = [], status = Active\<rparr>],
      transfers = []\<rparr>)"
proof -
  have old: "status (contracts signedStore ! 0) = Active"
      "playerId (contracts signedStore ! 0) = 0" "clubId (contracts signedStore ! 0) = 0"
    by (simp_all add: signedStore_eq)
  have rd: "cd_clubId otherClubTerms = Some 1"
    by (simp add: otherClubTerms_def)
  have "renewContract 1000 signedStore 0 otherClubTerms =
    (Inr 1,
     \<lparr>players = [\<lparr>age = 26, currentClub = Some 1, marketValue = 5550000\<rparr>],
      clubs = [\<lparr>budget = 10000000, currentSquad = [0]\<rparr>,
               \<lparr>budget = 15000000, currentSquad = [0]\<rparr>],
      contracts =
        [\<lparr>playerId = 0, clubId = 0, startDate = 0, endDate = 31536000000, salary = 100000,
          clauses = [(''terminationReason'', Text ''Renewal''),
                     (''terminationDate'', DateValue 1000)],
          status = Terminated\<rparr>,
         \<lparr>playerId = 0, clubId = 1, startDate = 1000, endDate = 94608001000,
           salary = 150000, clauses = [], status = Active\<rparr>],
      transfers = []\<rparr>)"
    by (simp add: signedStore_eq otherClubTerms_def betterTerms_def noData_def contract_eval)
  with old rd show ?thesis by blast
qed

section \<open>The claims about the transfer operations\<close>

subsection \<open>Initiating a transfer\<close>

lemma Transfer_new_status:
  "Transfer_new now td = Inr t \<Longrightarrow>
   t_status t = (case td_status td of None \<Rightarrow> Completed | Some st \<Rightarrow> st)"
  by (auto simp: Transfer_new_def split: if_splits)

lemma reserveFunds_frame:
  "reserveFunds s c a = Inr s' \<Longrightarrow>
   transfers s' = transfers s \<and> contracts s' = contracts s \<and> players s' = players s"
  by (auto simp: reserveFunds_def split: option.splits if_splits)

lemma initiateTransfer_in_Inr:
  assumes "initiateTransfer_in now s td = Inr (s', tid)"
  shows "\<exists>t. tid = length (transfers s) \<and> transfers s' = transfers s @ [t] \<and>
             t_status t = Pending"
proof -
  let ?td = "td\<lparr>td_status := Some Pending,
                 td_date := DateOf (dateOr (td_date td) now),
                 td_transferWindow :=
                   Some (determineTransferWindow (dateOr (td_date td) now))\<rparr>"
  from assms obtain t where t: "Transfer_new now ?td = Inr t"
    and r: "reserveFunds (fst (Transfer_insert s t)) (toClub t) (transferFee t) = Inr s'"
    and tid: "tid = snd (Transfer_insert s t)"
    unfolding initiateTransfer_in_def by (auto split: sum.splits)
  from Transfer_new_status [OF t] have "t_status t = Pending" by simp
  moreover from reserveFunds_frame [OF r] have "transfers s' = transfers s @ [t]"
    by (simp add: Transfer_insert_def)
  ultimately show ?thesis using tid by (simp add: Transfer_insert_def)
qed

lemma initiateTransfer_in_2_Inr:
  assumes "initiateTransfer_in_2 now s td = Inr (s', tid)"
  shows "\<exists>t. tid = length (transfers s) \<and> transfers s' = transfers s @ [t] \<and>
             t_status t = Pending"
proof -
  from assms obtain t where t: "Transfer_new now (td\<lparr>td_status := Some Pending\<rparr>) = Inr t"
    and r: "reserveClubBudgets (fst (Transfer_insert s t))
              (the (td_fromClub td)) (the (td_toClub td)) (the (td_transferFee td)) = Inr s'"
    and tid: "tid = snd (Transfer_insert s t)"
    unfolding initiateTransfer_in_2_def by (auto split: sum.splits)
  from Transfer_new_status [OF t] have "t_status t = Pending" by simp
  moreover from r have "transfers s' = transfers s @ [t]"
    by (auto simp: reserveClubBudgets_def Transfer_insert_def dest: reserveFunds_frame)
  ultimately show ?thesis using tid by (simp add: Transfer_insert_def)
qed

text \<open>
  C10.  A transfer that \<open>initiateTransfer\<close> returns (either listing) is the one it appended
  to the collection and has status Pending, whatever status \<open>transferData\<close> carried; the
  same data without a status, made into a document outside the engine, get the schema's
  default status Completed.
\<close>

theorem initiated_transfer_is_pending:
  "(initiateTransfer now s td = (Inr tid, s') \<longrightarrow>
      tid = length (transfers s) \<and> length (transfers s') = length (transfers s) + 1 \<and>
      t_status (transfers s' ! tid) = Pending) \<and>
   (initiateTransfer_2 now s td = (Inr tid, s') \<longrightarrow>
      tid = length (transfers s) \<and> length (transfers s') = length (transfers s) + 1 \<and>
      t_status (transfers s' ! tid) = Pending) \<and>
   (Transfer_new now (td\<lparr>td_status := None\<rparr>) = Inr t \<longrightarrow> t_status t = Completed)"
proof (intro conjI impI)
  assume "initiateTransfer now s td = (Inr tid, s')"
  then have "initiateTransfer_in now s td = Inr (s', tid)"
    by (auto simp: initiateTransfer_def split: sum.splits)
  from initiateTransfer_in_Inr [OF this]
  show "tid = length (transfers s)" "length (transfers s') = length (transfers s) + 1"
    "t_status (transfers s' ! tid) = Pending"
    by auto
next
  assume "initiateTransfer_2 now s td = (Inr tid, s')"
  then have "initiateTransfer_in_2 now s td = Inr (s', tid)"
    by (auto simp: initiateTransfer_2_def split: sum.splits)
  from initiateTransfer_in_2_Inr [OF this]
  show "tid = length (transfers s)" "length (transfers s') = length (transfers s) + 1"
    "t_status (transfers s' ! tid) = Pending"
    by auto
next
  assume "Transfer_new now (td\<lparr>td_status := None\<rparr>) = Inr t"
  from Transfer_new_status [OF this] show "t_status t = Completed" by simp
qed

text \<open>
  C4 as stated fails in the kind of error: \<open>validateTransfer\<close> looks the player up before it
  checks the window, so an October transfer for a player that is not in the store ends
  with the 404 response.
\<close>

theorem initiateTransfer_unknown_player_counterexample:
  "td_date octoberOffer = DateOf octoberDate \<and> getMonth octoberDate = 9 \<and>
   initiateTransfer julyDate emptyStore octoberOffer
     = (Inl (ErrorResponse ''Player not found with ID'' 404), emptyStore) \<and>
   statusCode (ErrorResponse ''Player not found with ID'' 404) \<noteq> Some 400"
  by (simp add: octoberOffer_def offer_def octoberDate_def emptyStore_def statusCode_def
        transfer_eval)

text \<open>
  C4 amended.  For every store and every transfer data whose date falls in a month other
  than June to August (months 5 to 7) and January (month 0), \<open>initiateTransfer\<close> (either
  listing) throws and leaves the store exactly as it was: no transfer is created and no
  budget changes.  The error is the 400 response of the window check when the player
  exists, and the 404 response of the player lookup when it does not.
\<close>

theorem initiateTransfer_outside_window:
  assumes "td_date td = DateOf d"
    and "\<not> (5 \<le> getMonth d \<and> getMonth d \<le> 7)" and "getMonth d \<noteq> 0"
  shows "initiateTransfer now s td =
           (Inl (if (case td_playerId td of None \<Rightarrow> True
                     | Some p \<Rightarrow> findById (players s) p = None)
                 then ErrorResponse ''Player not found with ID'' 404
                 else ErrorResponse ''Transfer date is outside valid transfer windows'' 400),
            s) \<and>
         initiateTransfer_2 now s td = initiateTransfer now s td"
proof -
  from assms have w: "\<not> validateTransferWindow (td_date td)"
    by (simp add: validateTransferWindow_def new_Date_def)
  have "validateTransfer s s td =
           Inl (if (case td_playerId td of None \<Rightarrow> True
                     | Some p \<Rightarrow> findById (players s) p = None)
                 then ErrorResponse ''Player not found with ID'' 404
                 else ErrorResponse ''Transfer date is outside valid transfer windows'' 400)"
    using w by (auto simp: validateTransfer_def split: option.splits)
  then show ?thesis
    by (simp add: initiateTransfer_def initiateTransfer_in_def
                   initiateTransfer_2_def initiateTransfer_in_2_def)
qed

theorem initiateTransfer_outside_window_witness:
  "td_date octoberOffer = DateOf octoberDate \<and> getMonth octoberDate = 9 \<and>
   initiateTransfer julyDate signedStore octoberOffer
     = (Inl (ErrorResponse ''Transfer date is outside valid transfer windows'' 400),
        signedStore) \<and>
   initiateTransfer_2 julyDate signedStore octoberOffer
     = initiateTransfer julyDate signedStore octoberOffer"
proof -
  have h: "td_date octoberOffer = DateOf octoberDate"
    by (simp add: octoberOffer_def offer_def)
  have m: "\<not> (5 \<le> getMonth octoberDate \<and> getMonth octoberDate \<le> 7)"
      "getMonth octoberDate \<noteq> 0" "getMonth octoberDate = 9"
    by (simp_all add: octoberDate_def)
  have p: "td_playerId octoberOffer = Some 0" "findById (players signedStore) 0 \<noteq> None"
    by (simp_all add: octoberOffer_def offer_def signedStore_eq findById_def)
  from initiateTransfer_outside_window [OF h m(1) m(2), of julyDate signedStore] p h m(3)
  show ?thesis by simp
qed

text \<open>
  A date that is left out is in no window, and \<open>null\<close> is read as the epoch, in January.
\<close>

lemma validateTransferWindow_no_date:
  "\<not> validateTransferWindow DateUndefined \<and> validateTransferWindow DateNull"
  by (simp add: validateTransferWindow_def new_Date_def epoch_def)

theorem initiated_transfer_is_pending_witness:
  "td_status completedOffer = Some Completed \<and>
   initiateTransfer julyDate signedStore completedOffer
     = (Inr 0, snd (initiateTransfer julyDate signedStore completedOffer)) \<and>
   t_status (transfers (snd (initiateTransfer julyDate signedStore completedOffer)) ! 0)
     = Pending \<and>
   initiateTransfer_2 julyDate signedStore completedOffer
     = (Inr 0, snd (initiateTransfer_2 julyDate signedStore completedOffer)) \<and>
   t_status (transfers (snd (initiateTransfer_2 julyDate signedStore completedOffer)) ! 0)
     = Pending"
proof -
  have a: "initiateTransfer julyDate signedStore completedOffer
     = (Inr 0, snd (initiateTransfer julyDate signedStore completedOffer))"
    by (simp add: signedStore_eq completedOffer_def offer_def julyDate_def transfer_eval)
  have b: "initiateTransfer_2 julyDate signedStore completedOffer
     = (Inr 0, snd (initiateTransfer_2 julyDate signedStore completedOffer))"
    by (simp add: signedStore_eq completedOffer_def offer_def julyDate_def transfer_eval)
  have c: "td_status completedOffer = Some Completed"
    by (simp add: completedOffer_def)
  from initiated_transfer_is_pending
         [of julyDate signedStore completedOffer 0
             "snd (initiateTransfer julyDate signedStore completedOffer)"] a
  have "t_status (transfers (snd (initiateTransfer julyDate signedStore completedOffer)) ! 0)
     = Pending" by blast
  moreover from initiated_transfer_is_pending
         [of julyDate signedStore completedOffer 0
             "snd (initiateTransfer_2 julyDate signedStore completedOffer)"] b
  have "t_status (transfers (snd (initiateTransfer_2 julyDate signedStore completedOffer)) ! 0)
     = Pending" by blast
  ultimately show ?thesis using a b c by blast
qed

subsection \<open>The value after a transfer\<close>

lemma Math_round_close: "\<bar>Math_round x - x\<bar> \<le> 1 / 2"
  unfolding Math_round_def by linarith

lemma ageMultiplier_bounds: "0 < ageMultiplier a \<and> ageMultiplier a \<le> 6 / 5"
  by (simp add: ageMultiplier_def)

lemma ageMultiplier_cases:
  "(a < 23 \<longrightarrow> ageMultiplier a = 1.2) \<and> (30 < a \<longrightarrow> ageMultiplier a = 0.8) \<and>
   (23 \<le> a \<and> a \<le> 30 \<longrightarrow> ageMultiplier a = 1)"
  by (simp add: ageMultiplier_def)

text \<open>
  What the two listings of \<open>updatePlayerValue\<close> compute.  For a fee \<open>f\<close> and a player of age
  \<open>a\<close>, the first listing returns the player's document with the value
  \<open>round(round(f * 0.9) * m)\<close>, where \<open>m\<close> is 1.2 for \<open>a < 23\<close>, 0.8 for \<open>a > 30\<close> and 1
  otherwise; the value is within 1.1 of \<open>f * 0.9 * m\<close>.  The second listing stores
  \<open>round(f * 0.9)\<close>, with no age multiplier.
\<close>

lemma updatePlayerValue_value:
  "(updatePlayerValue s pid f = Inr p' \<longrightarrow>
      findById (players s) pid = Some (p'\<lparr>marketValue := marketValue (players s ! pid)\<rparr>) \<and>
      marketValue p' = Math_round (Math_round (f * 0.9) * ageMultiplier (age p')) \<and>
      \<bar>marketValue p' - f * 0.9 * ageMultiplier (age p')\<bar> \<le> 11 / 10) \<and>
   (updatePlayerValue_2 s pid f = Inr s' \<longrightarrow>
      marketValue (players s' ! pid) = Math_round (f * 0.9))"
proof (intro conjI impI)
  assume u: "updatePlayerValue s pid f = Inr p'"
  let ?m = "ageMultiplier (age p')"
  let ?b = "Math_round (f * 0.9)"
  from u obtain p where p: "findById (players s) pid = Some p"
    and p': "p' = p\<lparr>marketValue := Math_round (?b * ageMultiplier (age p))\<rparr>"
    by (auto simp: updatePlayerValue_def Let_def split: option.splits)
  from p have "p = players s ! pid" by (auto simp: findById_def split: if_splits)
  with p p' show "findById (players s) pid
                    = Some (p'\<lparr>marketValue := marketValue (players s ! pid)\<rparr>)"
    by simp
  from p' show v: "marketValue p' = Math_round (?b * ?m)" by simp
  have 1: "\<bar>Math_round (?b * ?m) - ?b * ?m\<bar> \<le> 1 / 2" by (rule Math_round_close)
  have 2: "\<bar>?b - f * 0.9\<bar> \<le> 1 / 2" by (rule Math_round_close)
  have m: "0 < ?m" "?m \<le> 6 / 5" using ageMultiplier_bounds by simp_all
  have "?b * ?m - f * 0.9 * ?m = (?b - f * 0.9) * ?m"
    by (simp add: algebra_simps)
  then have "\<bar>?b * ?m - f * 0.9 * ?m\<bar> = \<bar>?b - f * 0.9\<bar> * ?m"
    using m by (simp only: abs_mult)
  also have "\<dots> \<le> (1 / 2) * (6 / 5)"
    using 2 m by (intro mult_mono) simp_all
  finally have 3: "\<bar>?b * ?m - f * 0.9 * ?m\<bar> \<le> 3 / 5" by simp
  from 1 3 show "\<bar>marketValue p' - f * 0.9 * ?m\<bar> \<le> 11 / 10"
    unfolding v by linarith
next
  assume "updatePlayerValue_2 s pid f = Inr s'"
  then show "marketValue (players s' ! pid) = Math_round (f * 0.9)"
    by (auto simp: updatePlayerValue_2_def Player_save_def findById_def
             split: option.splits if_splits)
qed

text \<open>
  The value is not rounded to a multiple of 100,000: for a fee of 7,000,000 and a player
  of 22 the first listing computes 7,560,000, where \<open>round(f * 0.9 * m / 100000) * 100000\<close>
  is 7,600,000.
\<close>

lemma updatePlayerValue_not_rounded_to_100000:
  "age youngX < 23 \<and>
   updatePlayerValue youngStore 0 7000000 = Inr (youngX\<lparr>marketValue := 7560000\<rparr>) \<and>
   Math_round (7000000 * 0.9 * 1.2 / 100000) * 100000 = 7600000"
  by (simp add: youngStore_def baseStore_def youngX_def playerX_def updatePlayerValue_def
        findById_def ageMultiplier_def Math_round_def)

subsection \<open>Budgets after a completed transfer\<close>

lemma initiateTransfer_in_budgets:
  assumes "initiateTransfer_in now s td = Inr (s1, tid)"
  shows "\<exists>t. tid = length (transfers s) \<and> transfers s1 = transfers s @ [t] \<and>
             t_status t = Pending \<and> fromClub t = the (td_fromClub td) \<and>
             toClub t = the (td_toClub td) \<and> transferFee t = the (td_transferFee td) \<and>
             toClub t < length (clubs s) \<and> length (clubs s1) = length (clubs s) \<and>
             map budget (clubs s1) =
               (map budget (clubs s))[toClub t := budget (clubs s ! toClub t) - transferFee t]"
proof -
  let ?td = "td\<lparr>td_status := Some Pending,
                 td_date := DateOf (dateOr (td_date td) now),
                 td_transferWindow :=
                   Some (determineTransferWindow (dateOr (td_date td) now))\<rparr>"
  from assms obtain t where t: "Transfer_new now ?td = Inr t"
    and r: "reserveFunds (fst (Transfer_insert s t)) (toClub t) (transferFee t) = Inr s1"
    and tid: "tid = snd (Transfer_insert s t)"
    unfolding initiateTransfer_in_def by (auto split: sum.splits)
  from t have f: "t_status t = Pending" "fromClub t = the (td_fromClub td)"
      "toClub t = the (td_toClub td)" "transferFee t = the (td_transferFee td)"
    by (auto simp: Transfer_new_def split: if_splits)
  from r have c: "toClub t < length (clubs s)"
      "clubs s1 = (clubs s)[toClub t :=
          (clubs s ! toClub t)\<lparr>budget := budget (clubs s ! toClub t) - transferFee t\<rparr>]"
      "transfers s1 = transfers s @ [t]"
    by (auto simp: reserveFunds_def Transfer_insert_def findById_def
             split: option.splits if_splits)
  from c have "map budget (clubs s1) =
               (map budget (clubs s))[toClub t := budget (clubs s ! toClub t) - transferFee t]"
    by (simp add: map_update)
  with f c tid show ?thesis by (simp add: Transfer_insert_def)
qed

lemma squad_update_budgets:
  "map budget (cs[i := (cs ! i)\<lparr>currentSquad := q\<rparr>]) = map budget cs"
proof (rule nth_equalityI)
  show "length (map budget (cs[i := (cs ! i)\<lparr>currentSquad := q\<rparr>])) = length (map budget cs)"
    by simp
next
  fix j assume "j < length (map budget (cs[i := (cs ! i)\<lparr>currentSquad := q\<rparr>]))"
  then have j: "j < length cs" by simp
  show "map budget (cs[i := (cs ! i)\<lparr>currentSquad := q\<rparr>]) ! j = map budget cs ! j"
    using j by (cases "j = i") simp_all
qed

lemma createContract_in_budgets:
  assumes "createContract_in committed s d = Inr (s', n)"
  shows "map budget (clubs s') = map budget (clubs s)"
proof -
  from assms obtain u where v: "validateContract committed s d = Inr u"
    by (auto simp: createContract_in_def split: sum.splits)
  from assms v obtain s1 where c: "Contract_create s d = Inr (s1, n)"
    by (auto simp: createContract_in_def split: sum.splits)
  from assms v c obtain s2 where
    p: "setCurrentClub s1 (the (cd_playerId d)) (the (cd_clubId d)) = Inr s2" and
    s': "s' = addToSquad s2 (the (cd_clubId d)) (the (cd_playerId d))"
    by (auto simp: createContract_in_def split: sum.splits)
  have "map budget (clubs (addToSquad s2 cid pid)) = map budget (clubs s2)" for cid pid
    by (auto simp: addToSquad_def findById_def squad_update_budgets
             split: option.splits if_splits)
  with Contract_create_Inr [OF c] setCurrentClub_frame [OF p] s' show ?thesis by simp
qed

lemma saveSquads_budgets:
  "map budget (clubs (saveSquads loaded s pid f t)) = map budget (clubs s)"
  by (simp add: saveSquads_def Let_def squad_update_budgets)

lemma completeTransfer_in_budgets:
  assumes "completeTransfer_in now s tid cd = Inr s'"
  shows "\<exists>t. findById (transfers s) tid = Some t \<and> fromClub t < length (clubs s) \<and>
             map budget (clubs s') =
               (map budget (clubs s))[fromClub t := budget (clubs s ! fromClub t) + transferFee t]"
proof -
  from completeTransfer_in_Inr [OF assms] obtain t s1 s2 newId s3 s4 where
    t: "findById (transfers s) tid = Some t" and "t_status t = Pending" and
    a: "terminateActiveWithOrigin now s (t_playerId t) (fromClub t) = Inr s1" and
    b: "createWithDestination now s s1 (t_playerId t) (toClub t) cd = Inr (s2, newId)" and
    c: "movePlayer s2 (t_playerId t) (toClub t) (transferFee t) = Inr s3" and
    d: "updateClubBudgets s3 (fromClub t) (toClub t) (transferFee t) = Inr s4" and
    s': "s' = saveSquads s
              (s4\<lparr>transfers := (transfers s4)[tid :=
                      t\<lparr>t_status := Completed,
                        contractDetails :=
                          (case newId of None \<Rightarrow> contractDetails t | Some n \<Rightarrow> Some n)\<rparr>]\<rparr>)
              (t_playerId t) (fromClub t) (toClub t)"
    by (elim exE conjE) (rule that)
  have 1: "clubs s1 = clubs s"
    using a
    by (auto simp: terminateActiveWithOrigin_def terminateOldContract_def
             dest: terminateContract_in_Inr split: option.splits prod.splits)
  have 2: "map budget (clubs s2) = map budget (clubs s1)"
  proof (cases cd)
    case None
    with b show ?thesis by (simp add: createWithDestination_def)
  next
    case (Some x)
    with b show ?thesis
      by (auto simp: createWithDestination_def createNewContract_def
               dest: createContract_in_budgets split: sum.splits)
  qed
  have 3: "clubs s3 = clubs s2"
    using c by (auto simp: movePlayer_def dest: Player_save_frame split: sum.splits)
  from d have 4: "fromClub t < length (clubs s3)"
    "clubs s4 = (clubs s3)[fromClub t :=
        (clubs s3 ! fromClub t)\<lparr>budget := budget (clubs s3 ! fromClub t) + transferFee t\<rparr>]"
    by (auto simp: updateClubBudgets_def findById_def split: option.splits if_splits)
  have len: "length (clubs s3) = length (clubs s)"
    using 1 2 3 by (metis length_map)
  have nth: "budget (clubs s3 ! fromClub t) = budget (clubs s ! fromClub t)"
    using 1 2 3 4(1) len by (metis nth_map)
  have "map budget (clubs s') = map budget (clubs s4)"
    by (simp add: s' saveSquads_budgets)
  also have "\<dots> = (map budget (clubs s3))[fromClub t :=
                      budget (clubs s3 ! fromClub t) + transferFee t]"
    by (simp add: 4(2) map_update)
  also have "\<dots> = (map budget (clubs s))[fromClub t :=
                      budget (clubs s ! fromClub t) + transferFee t]"
    using 1 2 3 nth by simp
  finally show ?thesis using t 4(1) len by simp
qed

text \<open>
  With the ledger of section 4.2, a transfer between two different clubs that is
  initiated and then completed leaves the destination club with its budget before the
  initiation minus the fee and the origin club with its budget plus the whole fee,
  whatever the sell-on clause of the transfer says.
\<close>

lemma initiate_then_complete_budgets:
  assumes i: "initiateTransfer now s td = (Inr tid, s1)"
    and c: "completeTransfer now' s1 tid cd = (Inr tid', s2)"
    and ne: "td_fromClub td \<noteq> td_toClub td"
  shows "budget (clubs s2 ! the (td_toClub td))
           = budget (clubs s ! the (td_toClub td)) - the (td_transferFee td) \<and>
         budget (clubs s2 ! the (td_fromClub td))
           = budget (clubs s ! the (td_fromClub td)) + the (td_transferFee td)"
proof -
  from i have i': "initiateTransfer_in now s td = Inr (s1, tid)"
    by (auto simp: initiateTransfer_def split: sum.splits)
  from c have c': "completeTransfer_in now' s1 tid cd = Inr s2"
    by (auto simp: completeTransfer_def split: sum.splits)
  from initiateTransfer_in_budgets [OF i'] obtain t where
    tid: "tid = length (transfers s)" and tr: "transfers s1 = transfers s @ [t]" and
    f: "fromClub t = the (td_fromClub td)" "toClub t = the (td_toClub td)"
       "transferFee t = the (td_transferFee td)" and
    to: "toClub t < length (clubs s)" and len: "length (clubs s1) = length (clubs s)" and
    b1: "map budget (clubs s1) =
               (map budget (clubs s))[toClub t := budget (clubs s ! toClub t) - transferFee t]"
    by blast
  from completeTransfer_in_budgets [OF c'] obtain t' where
    t': "findById (transfers s1) tid = Some t'" and fr: "fromClub t' < length (clubs s1)" and
    b2: "map budget (clubs s2) =
           (map budget (clubs s1))[fromClub t' := budget (clubs s1 ! fromClub t') + transferFee t']"
    by blast
  from t' tid tr have [simp]: "t' = t" by (simp add: findById_def)
  have td: "td_fromClub td \<noteq> None" "td_toClub td \<noteq> None"
    using i' by (auto simp: initiateTransfer_in_def Transfer_new_def split: sum.splits if_splits)
  with ne f have neq: "fromClub t \<noteq> toClub t" by auto
  have len2: "length (clubs s2) = length (clubs s)"
    using b2 len by (metis length_list_update length_map)
  have "budget (clubs s2 ! toClub t) = map budget (clubs s2) ! toClub t"
    using to len2 by simp
  also have "\<dots> = map budget (clubs s1) ! toClub t"
    using neq by (simp add: b2)
  also have "\<dots> = budget (clubs s ! toClub t) - transferFee t"
    using to by (simp add: b1)
  finally have A: "budget (clubs s2 ! toClub t) = budget (clubs s ! toClub t) - transferFee t" .
  have "budget (clubs s1 ! fromClub t) = map budget (clubs s1) ! fromClub t"
    using fr by simp
  also have "\<dots> = budget (clubs s ! fromClub t)"
    using neq fr len by (simp add: b1)
  finally have s1f: "budget (clubs s1 ! fromClub t) = budget (clubs s ! fromClub t)" .
  have "budget (clubs s2 ! fromClub t) = map budget (clubs s2) ! fromClub t"
    using fr len len2 by simp
  also have "\<dots> = budget (clubs s1 ! fromClub t) + transferFee t"
    using fr by (simp add: b2)
  finally have B: "budget (clubs s2 ! fromClub t) = budget (clubs s ! fromClub t) + transferFee t"
    using s1f by simp
  from A B f show ?thesis by simp
qed


lemma pendingSellOn_eq:
  "initiateTransfer julyDate signedStore sellOnOffer = (Inr 0, pendingSellOn) \<and>
   pendingSellOn =
     \<lparr>players = [\<lparr>age = 26, currentClub = Some 0, marketValue = 5000000\<rparr>],
      clubs = [\<lparr>budget = 10000000, currentSquad = [0]\<rparr>, \<lparr>budget = 8000000, currentSquad = []\<rparr>],
      contracts = [\<lparr>playerId = 0, clubId = 0, startDate = 0, endDate = 31536000000,
                    salary = 100000, clauses = [], status = Active\<rparr>],
      transfers = [\<lparr>t_playerId = 0, fromClub = 0, toClub = 1, transferFee = 7000000,
                    date = julyDate, transferType = Permanent, t_status = Pending,
                    transferWindow = Summer, loanDuration = None, contractDetails = None,
                    sellOnClause = \<lparr>percentage = 20, active = True\<rparr>,
                    additionalTerms = []\<rparr>]\<rparr>"
  by (simp add: pendingSellOn_def signedStore_eq sellOnOffer_def offer_def julyDate_def
        transfer_eval)

text \<open>
  C3, evaluated on the scenario of the repository's test with an active sell-on clause of
  20 percent added: club 0 (budget 10,000,000) sells player 0 to club 1 (budget
  15,000,000) for 7,000,000.  After \<open>initiateTransfer\<close> and \<open>completeTransfer\<close> the
  destination club has its budget minus the fee, as the claim says, but the origin club
  has its budget plus the whole fee: \<open>completeTransfer\<close> passes \<open>transfer.transferFee\<close> to
  \<open>updateClubBudgets\<close>, and the impact that \<open>calculateTransferBudgetImpact\<close> computes for the
  origin club, the fee less the sell-on share, is not used.
\<close>

theorem sell_on_clause_not_deducted:
  "budget (clubs signedStore ! 0) = 10000000 \<and> budget (clubs signedStore ! 1) = 15000000 \<and>
   initiateTransfer julyDate signedStore sellOnOffer = (Inr 0, pendingSellOn) \<and>
   fst (completeTransfer 1783850400000 pendingSellOn 0 None) = Inr 0 \<and>
   budget (clubs (snd (completeTransfer 1783850400000 pendingSellOn 0 None)) ! 1)
     = 15000000 - 7000000 \<and>
   budget (clubs (snd (completeTransfer 1783850400000 pendingSellOn 0 None)) ! 0)
     = 10000000 + 7000000 \<and>
   fst (calculateTransferBudgetImpact 7000000 (Some Permanent)
          (Some \<lparr>percentage = 20, active = True\<rparr>)) = 7000000 * (1 - 20 / 100)"
proof -
  have c: "completeTransfer 1783850400000 pendingSellOn 0 None =
     (Inr 0,
      \<lparr>players = [\<lparr>age = 26, currentClub = Some 1, marketValue = 5000000\<rparr>],
       clubs = [\<lparr>budget = 17000000, currentSquad = []\<rparr>, \<lparr>budget = 8000000, currentSquad = [0]\<rparr>],
       contracts = [\<lparr>playerId = 0, clubId = 0, startDate = 0, endDate = 31536000000,
                     salary = 100000,
                     clauses = [(''terminationReason'', Text ''Transfer''),
                                (''terminationDate'', DateValue 1783850400000)],
                     status = Terminated\<rparr>],
       transfers = [\<lparr>t_playerId = 0, fromClub = 0, toClub = 1, transferFee = 7000000,
                    date = julyDate, transferType = Permanent, t_status = Completed,
                    transferWindow = Summer, loanDuration = None, contractDetails = None,
                    sellOnClause = \<lparr>percentage = 20, active = True\<rparr>,
                    additionalTerms = []\<rparr>]\<rparr>)"
    unfolding pendingSellOn_eq [THEN conjunct2] julyDate_def by code_simp
  have b: "budget (clubs signedStore ! 0) = 10000000 \<and> budget (clubs signedStore ! 1) = 15000000"
    by (simp add: signedStore_eq)
  have i: "fst (calculateTransferBudgetImpact 7000000 (Some Permanent)
          (Some \<lparr>percentage = 20, active = True\<rparr>)) = 7000000 * (1 - 20 / 100)"
    by (simp add: calculateTransferBudgetImpact_def)
  show ?thesis
    using b i by (simp add: c pendingSellOn_eq [THEN conjunct1])
qed

subsection \<open>The stored value after a completed transfer\<close>

lemma currentClub_update_marketValue:
  "map marketValue (ps[i := (ps ! i)\<lparr>currentClub := c\<rparr>]) = map marketValue ps"
proof (rule nth_equalityI)
  show "length (map marketValue (ps[i := (ps ! i)\<lparr>currentClub := c\<rparr>]))
          = length (map marketValue ps)"
    by simp
next
  fix j assume "j < length (map marketValue (ps[i := (ps ! i)\<lparr>currentClub := c\<rparr>]))"
  then have j: "j < length ps" by simp
  show "map marketValue (ps[i := (ps ! i)\<lparr>currentClub := c\<rparr>]) ! j = map marketValue ps ! j"
    using j by (cases "j = i") simp_all
qed

lemma setCurrentClub_marketValue:
  assumes "setCurrentClub s pid cid = Inr s'"
  shows "map marketValue (players s') = map marketValue (players s)"
proof (cases "findById (players s) pid")
  case None
  with assms show ?thesis by (simp add: setCurrentClub_def)
next
  case (Some p)
  then have p: "p = players s ! pid" by (auto simp: findById_def split: if_splits)
  from assms Some have "Player_save s pid (p\<lparr>currentClub := Some cid\<rparr>) = Inr s'"
    by (simp add: setCurrentClub_def)
  from Player_save_frame [OF this] show ?thesis
    by (simp add: p currentClub_update_marketValue)
qed

lemma createContract_in_marketValue:
  assumes "createContract_in committed s d = Inr (s', n)"
  shows "map marketValue (players s') = map marketValue (players s)"
proof -
  from assms obtain u where v: "validateContract committed s d = Inr u"
    by (auto simp: createContract_in_def split: sum.splits)
  from assms v obtain s1 where c: "Contract_create s d = Inr (s1, n)"
    by (auto simp: createContract_in_def split: sum.splits)
  from assms v c obtain s2 where
    p: "setCurrentClub s1 (the (cd_playerId d)) (the (cd_clubId d)) = Inr s2" and
    s': "s' = addToSquad s2 (the (cd_clubId d)) (the (cd_playerId d))"
    by (auto simp: createContract_in_def split: sum.splits)
  from c have "players s1 = players s"
    by (auto simp: Contract_create_def split: if_splits)
  with setCurrentClub_marketValue [OF p] s' show ?thesis
    by (simp add: addToSquad_frame)
qed

lemma movePlayer_marketValue:
  assumes "movePlayer s pid toId fee = Inr s'"
  shows "map marketValue (players s') = map marketValue (players s)"
proof -
  from assms have "Player_save s pid ((players s ! pid)\<lparr>currentClub := Some toId\<rparr>) = Inr s'"
    by (auto simp: movePlayer_def split: sum.splits)
  from Player_save_frame [OF this] show ?thesis
    by (simp add: currentClub_update_marketValue)
qed

text \<open>
  No \<open>completeTransfer\<close> of the first listing that succeeds changes a stored market value:
  the only document on which a new value is set is the one \<open>updatePlayerValue\<close> loads and
  returns, and nothing saves it.
\<close>

lemma completeTransfer_in_marketValue:
  assumes "completeTransfer_in now s tid cd = Inr s'"
  shows "map marketValue (players s') = map marketValue (players s)"
proof -
  from completeTransfer_in_Inr [OF assms] obtain t s1 s2 newId s3 s4 where
    t: "findById (transfers s) tid = Some t" and "t_status t = Pending" and
    a: "terminateActiveWithOrigin now s (t_playerId t) (fromClub t) = Inr s1" and
    b: "createWithDestination now s s1 (t_playerId t) (toClub t) cd = Inr (s2, newId)" and
    c: "movePlayer s2 (t_playerId t) (toClub t) (transferFee t) = Inr s3" and
    d: "updateClubBudgets s3 (fromClub t) (toClub t) (transferFee t) = Inr s4" and
    s': "s' = saveSquads s
              (s4\<lparr>transfers := (transfers s4)[tid :=
                      t\<lparr>t_status := Completed,
                        contractDetails :=
                          (case newId of None \<Rightarrow> contractDetails t | Some n \<Rightarrow> Some n)\<rparr>]\<rparr>)
              (t_playerId t) (fromClub t) (toClub t)"
    by (elim exE conjE) (rule that)
  have 1: "players s1 = players s"
    using a
    by (auto simp: terminateActiveWithOrigin_def terminateOldContract_def
             dest: terminateContract_in_Inr split: option.splits prod.splits)
  have 2: "map marketValue (players s2) = map marketValue (players s1)"
  proof (cases cd)
    case None
    with b show ?thesis by (simp add: createWithDestination_def)
  next
    case (Some x)
    with b show ?thesis
      by (auto simp: createWithDestination_def createNewContract_def
               dest: createContract_in_marketValue split: sum.splits)
  qed
  note 3 = movePlayer_marketValue [OF c]
  from d have 4: "players s4 = players s3"
    by (auto simp: updateClubBudgets_def split: option.splits)
  show ?thesis using 1 2 3 4 by (simp add: s')
qed

text \<open>
  C6, evaluated on the transfer of the scenario above: player 0 is 26 (multiplier 1) and
  has the value 5,000,000, the fee is 7,000,000.  The claim gives the player the value
  \<open>round(7000000 * 0.9 * 1 / 100000) * 100000\<close> = 6,300,000 after \<open>completeTransfer\<close>, and
  that is the value \<open>updatePlayerValue\<close> sets on the document it returns.  \<open>completeTransfer\<close>
  succeeds and the stored value is still 5,000,000: it does not use the returned
  document, and the \<open>player\<close> document it saves carries the new club only.
\<close>

theorem completeTransfer_market_value_not_stored:
  "age (players pendingSellOn ! 0) = 26 \<and>
   marketValue (players pendingSellOn ! 0) = 5000000 \<and>
   transferFee (transfers pendingSellOn ! 0) = 7000000 \<and>
   updatePlayerValue pendingSellOn 0 7000000
     = Inr ((players pendingSellOn ! 0)\<lparr>marketValue := 6300000\<rparr>) \<and>
   Math_round (7000000 * 0.9 * 1 / 100000) * 100000 = 6300000 \<and>
   fst (completeTransfer 1783850400000 pendingSellOn 0 None) = Inr 0 \<and>
   marketValue (players (snd (completeTransfer 1783850400000 pendingSellOn 0 None)) ! 0)
     = 5000000"
proof -
  have c: "fst (completeTransfer 1783850400000 pendingSellOn 0 None) = Inr 0 \<and>
    marketValue (players (snd (completeTransfer 1783850400000 pendingSellOn 0 None)) ! 0)
     = 5000000"
    unfolding pendingSellOn_eq [THEN conjunct2] julyDate_def by code_simp
  have r: "Math_round (7000000 * 0.9 * 1 / 100000) * 100000 = 6300000"
    by (simp add: Math_round_def)
  from c r show ?thesis
    by (simp add: pendingSellOn_eq [THEN conjunct2] updatePlayerValue_def findById_def
          ageMultiplier_def Math_round_def)
qed

section \<open>Properties of the Change Capture Bus\<close>

lemma logChange_max [simp]: "maxChangeLogSize (logChange b c) = maxChangeLogSize b"
  by (simp add: logChange_def Let_def)

lemma logChange_published [simp]: "published (logChange b c) = published b"
  by (simp add: logChange_def Let_def)

lemma logChange_length_le:
  "length (changeLog b) \<le> maxChangeLogSize b \<Longrightarrow>
   length (changeLog (logChange b c)) \<le> maxChangeLogSize b"
  by (simp add: logChange_def Let_def)

lemma foldl_logChange_max [simp]:
  "maxChangeLogSize (foldl logChange b cs) = maxChangeLogSize b"
  by (induction cs arbitrary: b) simp_all

lemma foldl_logChange_bounded:
  "length (changeLog b) \<le> maxChangeLogSize b \<Longrightarrow>
   length (changeLog (foldl logChange b cs)) \<le> maxChangeLogSize b"
proof (induction cs arbitrary: b)
  case Nil
  then show ?case by simp
next
  case (Cons c cs)
  have "length (changeLog (logChange b c)) \<le> maxChangeLogSize (logChange b c)"
    using Cons.prems by (simp add: logChange_length_le)
  from Cons.IH [OF this] show ?case by simp
qed

lemma logChange_full:
  assumes "length (changeLog b) = maxChangeLogSize b" and "0 < maxChangeLogSize b"
  shows "changeLog (logChange b c) = tl (changeLog b) @ [c]"
proof -
  from assms have "changeLog b \<noteq> []" by auto
  then show ?thesis using assms by (simp add: logChange_def Let_def)
qed

lemma logChange_not_full:
  "length (changeLog b) < maxChangeLogSize b \<Longrightarrow> changeLog (logChange b c) = changeLog b @ [c]"
  by (simp add: logChange_def Let_def)

lemma logChange_drop:
  assumes "changeLog b = drop (n - maxChangeLogSize b) cs" and "length cs = n"
  shows "changeLog (logChange b c) = drop (Suc n - maxChangeLogSize b) (cs @ [c])"
proof (cases "n < maxChangeLogSize b")
  case True
  with assms show ?thesis by (simp add: logChange_def Let_def)
next
  case False
  define k where "k = n - maxChangeLogSize b"
  have k: "k \<le> length cs" "Suc n - maxChangeLogSize b = Suc k"
    using False assms(2) by (simp_all add: k_def)
  have full: "length (changeLog b @ [c]) > maxChangeLogSize b"
    using False assms by simp
  have "drop (Suc k) (cs @ [c]) = tl (drop k (cs @ [c]))"
    by (simp only: drop_Suc tl_drop)
  also have "drop k (cs @ [c]) = drop k cs @ [c]"
    using k(1) by simp
  finally have "drop (Suc k) (cs @ [c]) = tl (changeLog b @ [c])"
    using assms(1) by (simp add: k_def)
  with full k(2) show ?thesis
    by (simp add: logChange_def Let_def)
qed

lemma foldl_logChange_drop:
  "changeLog (foldl logChange (CDC_constructor e) cs) = drop (length cs - 1000) cs"
proof (induction cs rule: rev_induct)
  case Nil
  show ?case by (simp add: CDC_constructor_def)
next
  case (snoc c cs)
  have m: "maxChangeLogSize (foldl logChange (CDC_constructor e) cs) = 1000"
    by (simp add: CDC_constructor_def)
  from logChange_drop [of "foldl logChange (CDC_constructor e) cs" "length cs" cs c] snoc m
  show ?case by simp
qed

text \<open>
  C8.  Starting from the constructor's empty log, after any sequence of \<open>logChange\<close> calls
  the log holds at most 1000 entries, namely the last 1000 of the changes logged, in the
  order of their arrival; and on a bus whose log is full (1000 entries, the maximum the
  constructor sets), \<open>logChange\<close> drops exactly the first, oldest entry and keeps the
  others in their order, with the new entry last.
\<close>

theorem changeLog_bounded_drop_oldest:
  "length (changeLog (foldl logChange (CDC_constructor e) cs)) \<le> 1000 \<and>
   changeLog (foldl logChange (CDC_constructor e) cs) = drop (length cs - 1000) cs \<and>
   (maxChangeLogSize b = 1000 \<and> length (changeLog b) = 1000 \<longrightarrow>
      changeLog (logChange b c) = tl (changeLog b) @ [c] \<and>
      length (changeLog (logChange b c)) = 1000)"
proof (intro conjI)
  have "length (changeLog (foldl logChange (CDC_constructor e) cs))
          \<le> maxChangeLogSize (CDC_constructor e)"
    by (rule foldl_logChange_bounded) (simp add: CDC_constructor_def)
  then show "length (changeLog (foldl logChange (CDC_constructor e) cs)) \<le> 1000"
    by (simp add: CDC_constructor_def)
next
  show "changeLog (foldl logChange (CDC_constructor e) cs) = drop (length cs - 1000) cs"
    by (rule foldl_logChange_drop)
next
  show "maxChangeLogSize b = 1000 \<and> length (changeLog b) = 1000 \<longrightarrow>
      changeLog (logChange b c) = tl (changeLog b) @ [c] \<and>
      length (changeLog (logChange b c)) = 1000"
  proof
    assume h: "maxChangeLogSize b = 1000 \<and> length (changeLog b) = 1000"
    then have "changeLog (logChange b c) = tl (changeLog b) @ [c]"
      by (intro logChange_full) simp_all
    with h show "changeLog (logChange b c) = tl (changeLog b) @ [c] \<and>
      length (changeLog (logChange b c)) = 1000" by simp
  qed
qed

theorem changeLog_bounded_drop_oldest_witness:
  "maxChangeLogSize fullBus = 1000 \<and> length (changeLog fullBus) = 1000 \<and>
   changeLog (logChange fullBus (stamp ''Player'' 5 sampleChange))
     = replicate 999 sampleChange @ [stamp ''Player'' 5 sampleChange]"
proof -
  have h: "maxChangeLogSize fullBus = 1000 \<and> length (changeLog fullBus) = 1000"
    by (simp add: fullBus_def CDC_constructor_def)
  have t: "tl (changeLog fullBus) = replicate 999 sampleChange"
    by (simp add: fullBus_def CDC_constructor_def)
  from changeLog_bounded_drop_oldest [of True "[]" fullBus "stamp ''Player'' 5 sampleChange"] h t
  show ?thesis by simp
qed

lemma handleChange_changeLog:
  "changeLog (handleChange m c now b) = changeLog (logChange b (stamp m now c))"
  by (simp add: handleChange_def emit_def Let_def)

lemma handleChange_published:
  "published (handleChange m c now b) = published b @ eventsOf m c now"
  by (simp add: handleChange_def emit_def eventsOf_def Let_def)

lemma handleChange_max [simp]:
  "maxChangeLogSize (handleChange m c now b) = maxChangeLogSize b"
  by (simp add: handleChange_def emit_def Let_def)

lemma eventsOf_not_Nil: "eventsOf m c now \<noteq> []"
  by (simp add: eventsOf_def Let_def)

text \<open>
  C9 as stated fails: on the freshly constructed bus, delivering the sample change a second
  time (even within the same millisecond) gives a state different from delivering it once.
\<close>

theorem duplicate_delivery_counterexample:
  "handleChange ''Player'' sampleChange 5
     (handleChange ''Player'' sampleChange 5 (CDC_constructor True))
   \<noteq> handleChange ''Player'' sampleChange 5 (CDC_constructor True)"
proof
  assume eq: "handleChange ''Player'' sampleChange 5
     (handleChange ''Player'' sampleChange 5 (CDC_constructor True))
   = handleChange ''Player'' sampleChange 5 (CDC_constructor True)"
  have "length (changeLog (handleChange ''Player'' sampleChange 5
     (handleChange ''Player'' sampleChange 5 (CDC_constructor True)))) = 2"
    by (simp add: handleChange_changeLog logChange_def CDC_constructor_def Let_def)
  moreover have "length (changeLog (handleChange ''Player'' sampleChange 5
     (CDC_constructor True))) = 1"
    by (simp add: handleChange_changeLog logChange_def CDC_constructor_def Let_def)
  ultimately show False using eq by simp
qed

text \<open>
  C9 amended.  The bus has no deduplication: \<open>handleChange\<close> never looks at the log or at
  what was published before.  A second delivery of the same change is logged again (through
  \<open>logChange\<close>, with its own capture stamp) and all its events are published again, so in
  every bus state the duplicate delivery leaves a state different from the single delivery.
\<close>

theorem duplicate_delivery_logged_and_published_again:
  "published (handleChange m c t2 (handleChange m c t1 b))
     = published b @ eventsOf m c t1 @ eventsOf m c t2 \<and>
   changeLog (handleChange m c t2 (handleChange m c t1 b))
     = changeLog (logChange (logChange b (stamp m t1 c)) (stamp m t2 c)) \<and>
   handleChange m c t2 (handleChange m c t1 b) \<noteq> handleChange m c t1 b"
proof (intro conjI)
  show "published (handleChange m c t2 (handleChange m c t1 b))
     = published b @ eventsOf m c t1 @ eventsOf m c t2"
    by (simp add: handleChange_published)
  show "changeLog (handleChange m c t2 (handleChange m c t1 b))
     = changeLog (logChange (logChange b (stamp m t1 c)) (stamp m t2 c))"
    by (simp add: handleChange_changeLog logChange_def Let_def)
  show "handleChange m c t2 (handleChange m c t1 b) \<noteq> handleChange m c t1 b"
  proof
    assume "handleChange m c t2 (handleChange m c t1 b) = handleChange m c t1 b"
    then have "published (handleChange m c t2 (handleChange m c t1 b))
                 = published (handleChange m c t1 b)" by simp
    then show False by (simp add: handleChange_published eventsOf_not_Nil)
  qed
qed

end
